theory Spec2Isabelle
  imports Complex_Main "HOL-Library.Word"
begin

section \<open>JavaScript values\<close>

text \<open>
  The program is \<^verbatim>\<open>src/download.js\<close>, a Node.js script. A JavaScript string is a
  sequence of 16-bit code units; the regular expression of \<^verbatim>\<open>sanitizeFilename\<close> (no
  \<^verbatim>\<open>u\<close> flag), \<^verbatim>\<open>trim\<close>, \<^verbatim>\<open>split\<close> and \<^verbatim>\<open>startsWith\<close> all work on code units.
  String literals of the source are written \<open>lit ''...''\<close>.
\<close>

type_synonym jschar = "16 word"
type_synonym jsstring = "jschar list"

definition lit :: "string \<Rightarrow> jsstring" where
  "lit s = map of_char s"

text \<open>
  Numbers: a finite value is a rational (every finite double is one); the infinities and
  NaN are values of their own, since division by zero and failed conversions produce
  them. The sign of zero is not represented.
\<close>

datatype jsnum = Fin rat | PosInf | NegInf | NaN

datatype jsval =
    Undefined
  | Null
  | Bool bool
  | Num jsnum
  | Str jsstring
  | Arr "jsval list"
  | Obj "(string \<times> jsval) list"

text \<open>
  Errors are values. \<open>TypeError\<close> is what the engine throws for a property read on
  \<^verbatim>\<open>undefined\<close>/\<^verbatim>\<open>null\<close> or a call of something that is not a function (the string says
  which); \<open>Error\<close> is \<^verbatim>\<open>new Error(message)\<close> of the source; \<open>SystemError\<close> is an error
  of a collaborator (network, file system, PDF library), named by its code.
\<close>

datatype error = TypeError string | Error jsstring | SystemError string

text \<open>ToBoolean: the condition of every \<^verbatim>\<open>if\<close>, \<^verbatim>\<open>&&\<close>, \<^verbatim>\<open>||\<close> and \<^verbatim>\<open>?:\<close>.\<close>

fun truthy :: "jsval \<Rightarrow> bool" where
  "truthy Undefined = False"
| "truthy Null = False"
| "truthy (Bool b) = b"
| "truthy (Num (Fin r)) = (r \<noteq> 0)"
| "truthy (Num NaN) = False"
| "truthy (Num _) = True"
| "truthy (Str s) = (s \<noteq> [])"
| "truthy (Arr _) = True"
| "truthy (Obj _) = True"

section \<open>String helpers of the runtime\<close>

text \<open>
  \<^verbatim>\<open>String.prototype.trim\<close> removes WhiteSpace and LineTerminator code units from both
  ends: TAB, LF, VT, FF, CR, SP, NBSP, U+1680, U+2000..U+200A, U+2028, U+2029, U+202F,
  U+205F, U+3000 and U+FEFF.
\<close>

definition isWhiteSpace :: "jschar \<Rightarrow> bool" where
  "isWhiteSpace c \<longleftrightarrow>
     c \<in> set [0x9, 0xA, 0xB, 0xC, 0xD, 0x20, 0xA0, 0x1680, 0x2028, 0x2029, 0x202F,
               0x205F, 0x3000, 0xFEFF]
     \<or> (0x2000 \<le> c \<and> c \<le> 0x200A)"

definition trim :: "jsstring \<Rightarrow> jsstring" where
  "trim s = rev (dropWhile isWhiteSpace (rev (dropWhile isWhiteSpace s)))"

section \<open>sanitizeFilename\<close>

text \<open>
  \<^verbatim>\<open>function sanitizeFilename(name) { return name.replace(/[/\\?%*:|"<>]/g, '-').trim(); }\<close>

  The character class holds the ten code units
  \<^verbatim>\<open>/ \ ? % * : | " < >\<close> (0x2F, 0x5C, 0x3F, 0x25, 0x2A, 0x3A, 0x7C, 0x22, 0x3C, 0x3E);
  \<^verbatim>\<open>'-'\<close> is 0x2D. Only a string has a \<^verbatim>\<open>replace\<close> method: any other argument makes
  the call throw a TypeError, whose message \<open>typeError\<close> builds from the value and the
  name of the method (the engine's message also quotes the name and, for a value that is
  not a function, names the receiver expression).
\<close>

definition forbiddenChars :: "jschar list" where
  "forbiddenChars = [0x2F, 0x5C, 0x3F, 0x25, 0x2A, 0x3A, 0x7C, 0x22, 0x3C, 0x3E]"

definition replaceForbidden :: "jsstring \<Rightarrow> jsstring" where
  "replaceForbidden s = map (\<lambda>c. if c \<in> set forbiddenChars then 0x2D else c) s"

definition typeError :: "jsval \<Rightarrow> string \<Rightarrow> error" where
  "typeError v method =
     (if v = Undefined then TypeError (''Cannot read properties of undefined (reading '' @ method @ '')'')
      else if v = Null then TypeError (''Cannot read properties of null (reading '' @ method @ '')'')
      else TypeError (method @ '' is not a function''))"

definition sanitizeFilename :: "jsval \<Rightarrow> error + jsstring" where
  "sanitizeFilename name = (case name of
       Str s \<Rightarrow> Inr (trim (replaceForbidden s))
     | _ \<Rightarrow> Inl (typeError name ''replace''))"

section \<open>Numbers\<close>

text \<open>
  The arithmetic the source uses, on \<open>jsnum\<close>: \<^verbatim>\<open>*\<close>, \<^verbatim>\<open>/\<close>, \<^verbatim>\<open>-\<close>, \<^verbatim>\<open><\<close> and
  \<^verbatim>\<open>Math.min\<close>, with the IEEE rules for the infinities and NaN (a zero divisor counts as
  \<open>+0\<close>). \<open>jmul\<close>, \<open>jdiv\<close> and \<open>jsub\<close> give the exact result for finite operands;
  \<open>dmul\<close>, \<open>ddiv\<close> and \<open>dsub\<close> below round it to a double, as the engine does.
\<close>

fun jmul :: "jsnum \<Rightarrow> jsnum \<Rightarrow> jsnum" where
  "jmul (Fin a) (Fin b) = Fin (a * b)"
| "jmul NaN _ = NaN"
| "jmul _ NaN = NaN"
| "jmul (Fin a) PosInf = (if a = 0 then NaN else if 0 < a then PosInf else NegInf)"
| "jmul (Fin a) NegInf = (if a = 0 then NaN else if 0 < a then NegInf else PosInf)"
| "jmul PosInf (Fin b) = (if b = 0 then NaN else if 0 < b then PosInf else NegInf)"
| "jmul NegInf (Fin b) = (if b = 0 then NaN else if 0 < b then NegInf else PosInf)"
| "jmul PosInf PosInf = PosInf"
| "jmul NegInf NegInf = PosInf"
| "jmul PosInf NegInf = NegInf"
| "jmul NegInf PosInf = NegInf"

fun jdiv :: "jsnum \<Rightarrow> jsnum \<Rightarrow> jsnum" where
  "jdiv (Fin a) (Fin b) =
     (if b \<noteq> 0 then Fin (a / b) else if a = 0 then NaN else if 0 < a then PosInf else NegInf)"
| "jdiv NaN _ = NaN"
| "jdiv _ NaN = NaN"
| "jdiv (Fin a) _ = Fin 0"
| "jdiv PosInf (Fin b) = (if 0 \<le> b then PosInf else NegInf)"
| "jdiv NegInf (Fin b) = (if 0 \<le> b then NegInf else PosInf)"
| "jdiv _ _ = NaN"

fun jsub :: "jsnum \<Rightarrow> jsnum \<Rightarrow> jsnum" where
  "jsub (Fin a) (Fin b) = Fin (a - b)"
| "jsub NaN _ = NaN"
| "jsub _ NaN = NaN"
| "jsub PosInf PosInf = NaN"
| "jsub NegInf NegInf = NaN"
| "jsub PosInf _ = PosInf"
| "jsub NegInf _ = NegInf"
| "jsub (Fin a) PosInf = NegInf"
| "jsub (Fin a) NegInf = PosInf"

fun jlt :: "jsnum \<Rightarrow> jsnum \<Rightarrow> bool" where
  "jlt (Fin a) (Fin b) = (a < b)"
| "jlt NaN _ = False"
| "jlt _ NaN = False"
| "jlt PosInf _ = False"
| "jlt _ NegInf = False"
| "jlt _ _ = True"

definition jmin :: "jsnum \<Rightarrow> jsnum \<Rightarrow> jsnum" where
  "jmin a b = (if a = NaN \<or> b = NaN then NaN else if jlt b a then b else a)"

text \<open>
  IEEE 754 binary64, rounding to nearest with ties to even. \<open>log2floor n\<close> is the
  position of the leading bit of a positive integer, \<open>pow2 e\<close> is \<open>2^e\<close> for an integer
  \<open>e\<close>, and \<open>exponentOf a\<close> is the \<open>e\<close> with \<open>2^e \<le> a < 2^(e+1)\<close> for a positive
  rational. A double with exponent \<open>e\<close> is a multiple of \<open>2^(e-52)\<close>; the exponent is at
  least \<open>-1022\<close> (below that the subnormal numbers are multiples of \<open>2^(-1074)\<close>), and a
  result of \<open>2^1024\<close> or more is infinite, which can only happen in the top binade.
\<close>

function log2floor :: "int \<Rightarrow> int" where
  "log2floor n = (if n < 2 then 0 else 1 + log2floor (n div 2))"
  by pat_completeness auto

termination
  by (relation "measure nat") auto

declare log2floor.simps [simp del]

definition pow2 :: "int \<Rightarrow> rat" where
  "pow2 e = (if 0 \<le> e then 2 ^ nat e else 1 / 2 ^ nat (- e))"

definition exponentOf :: "rat \<Rightarrow> int" where
  "exponentOf a =
     (if 1 \<le> a then log2floor \<lfloor>a\<rfloor>
      else (let k = log2floor \<lfloor>1 / a\<rfloor>
            in if a * pow2 k = 1 then - k else - k - 1))"

definition roundHalfEven :: "rat \<Rightarrow> int" where
  "roundHalfEven q =
     (let n = \<lfloor>q\<rfloor>; f = q - of_int n
      in if f < 1 / 2 then n else if 1 / 2 < f then n + 1 else if even n then n else n + 1)"

definition roundDouble :: "rat \<Rightarrow> jsnum" where
  "roundDouble r =
     (if r = 0 then Fin 0
      else (let a = \<bar>r\<bar>;
                e = max (exponentOf a) (- 1022);
                ulp = pow2 (e - 52);
                m = of_int (roundHalfEven (a / ulp)) * ulp
            in if e < 1023 then Fin (if 0 < r then m else - m)
               else if m < pow2 1024 then Fin (if 0 < r then m else - m)
               else if 0 < r then PosInf else NegInf))"

fun roundNum :: "jsnum \<Rightarrow> jsnum" where
  "roundNum (Fin r) = roundDouble r"
| "roundNum n = n"

definition dmul :: "jsnum \<Rightarrow> jsnum \<Rightarrow> jsnum" where
  "dmul a b = roundNum (jmul a b)"

definition ddiv :: "jsnum \<Rightarrow> jsnum \<Rightarrow> jsnum" where
  "ddiv a b = roundNum (jdiv a b)"

definition dsub :: "jsnum \<Rightarrow> jsnum \<Rightarrow> jsnum" where
  "dsub a b = roundNum (jsub a b)"

definition isFinite :: "jsnum \<Rightarrow> bool" where
  "isFinite n = (case n of Fin _ \<Rightarrow> True | _ \<Rightarrow> False)"

section \<open>Decimal digits\<close>

definition digitChar :: "nat \<Rightarrow> jschar" where
  "digitChar k = lit ''0123456789'' ! k"

fun digits :: "nat \<Rightarrow> jsstring" where
  "digits n = (if n < 10 then [digitChar n] else digits (n div 10) @ [digitChar (n mod 10)])"

declare digits.simps [simp del]

section \<open>Recipes and the host\<close>

text \<open>
  A recipe is the object the recipe service returns. The source reads the sixteen
  properties below and nothing else; a property the object does not have reads as
  \<open>Undefined\<close>. (The fields \<open>note'\<close> and \<open>notes'\<close> are the properties \<^verbatim>\<open>note\<close> and \<^verbatim>\<open>notes\<close>.)
\<close>

record recipe =
  name :: jsval
  creationTimestamp :: jsval
  photoIds :: jsval
  sourceName :: jsval
  sourceUrl :: jsval
  servings :: jsval
  rating :: jsval
  prepTime :: jsval
  cookTime :: jsval
  categories :: jsval
  notes' :: jsval
  ingredients :: jsval
  instructions :: jsval
  preparationSteps :: jsval
  note' :: jsval
  nutritionalInfo :: jsval

type_synonym buffer = "8 word list"

text \<open>
  What \<^verbatim>\<open>https.get\<close> delivers: a transport error, or a response with a status code and a
  body that either arrives whole or ends in an error.
\<close>

record response =
  statusCode :: nat
  body :: "error + buffer"

text \<open>
  Everything outside the repository is a parameter of the model: the engine's
  conversions (\<open>numberToString\<close> is consulted only for numbers that are not integers of
  magnitude at most \<open>2^53\<close>), the local time zone (offset from UTC in milliseconds at a
  given UTC instant), the network, the PDF library's image decoder (intrinsic width and
  height), the error the PDF library's \<^verbatim>\<open>image\<close> call throws, if any, for a buffer, a
  position \<open>x\<close>, a width and a height, the errors of the write stream opened on a path,
  and the recipe service.
\<close>

record host =
  numberToString :: "rat \<Rightarrow> jsstring"
  stringToNumber :: "jsstring \<Rightarrow> jsnum"
  localOffset :: "int \<Rightarrow> int"
  httpsGet :: "jsstring \<Rightarrow> error + response"
  openImage :: "buffer \<Rightarrow> error + nat \<times> nat"
  imageError :: "buffer \<Rightarrow> jsnum \<Rightarrow> jsnum \<Rightarrow> jsnum \<Rightarrow> error option"
  streamError :: "jsstring \<Rightarrow> error option"
  login :: "error option"
  getRecipes :: "error + recipe list"
  teardown :: "error option"

section \<open>Conversions\<close>

fun joinWith :: "jsstring \<Rightarrow> jsstring list \<Rightarrow> jsstring" where
  "joinWith sep [] = []"
| "joinWith sep [x] = x"
| "joinWith sep (x # y # ys) = x @ sep @ joinWith sep (y # ys)"

definition numToStr :: "host \<Rightarrow> jsnum \<Rightarrow> jsstring" where
  "numToStr h n = (case n of
       Fin r \<Rightarrow>
         (if r = of_int \<lfloor>r\<rfloor> \<and> \<bar>r\<bar> \<le> 9007199254740992
          then (if r < 0 then lit ''-'' @ digits (nat \<lfloor>- r\<rfloor>) else digits (nat \<lfloor>r\<rfloor>))
          else numberToString h r)
     | PosInf \<Rightarrow> lit ''Infinity''
     | NegInf \<Rightarrow> lit ''-Infinity''
     | NaN \<Rightarrow> lit ''NaN'')"

text \<open>
  ToString, as a template literal applies it. An array is joined with commas, where
  \<^verbatim>\<open>undefined\<close> and \<^verbatim>\<open>null\<close> elements give the empty string.
\<close>

fun toStr :: "host \<Rightarrow> jsval \<Rightarrow> jsstring" where
  "toStr h Undefined = lit ''undefined''"
| "toStr h Null = lit ''null''"
| "toStr h (Bool b) = (if b then lit ''true'' else lit ''false'')"
| "toStr h (Num n) = numToStr h n"
| "toStr h (Str s) = s"
| "toStr h (Arr xs) =
     joinWith (lit '','') (map (\<lambda>v. if v = Undefined \<or> v = Null then [] else toStr h v) xs)"
| "toStr h (Obj _) = lit ''[object Object]''"

text \<open>\<^verbatim>\<open>Array.prototype.join(sep)\<close>.\<close>

definition arrayJoin :: "host \<Rightarrow> jsstring \<Rightarrow> jsval list \<Rightarrow> jsstring" where
  "arrayJoin h sep xs =
     joinWith sep (map (\<lambda>v. if v = Undefined \<or> v = Null then [] else toStr h v) xs)"

text \<open>ToNumber, as \<^verbatim>\<open>*\<close>, \<^verbatim>\<open>/\<close> and \<^verbatim>\<open>>\<close> apply it to an operand.\<close>

fun toNumber :: "host \<Rightarrow> jsval \<Rightarrow> jsnum" where
  "toNumber h Undefined = NaN"
| "toNumber h Null = Fin 0"
| "toNumber h (Bool b) = Fin (if b then 1 else 0)"
| "toNumber h (Num n) = n"
| "toNumber h (Str s) = stringToNumber h s"
| "toNumber h (Arr xs) = stringToNumber h (toStr h (Arr xs))"
| "toNumber h (Obj _) = NaN"

text \<open>
  Reading a property of a value that is neither \<^verbatim>\<open>undefined\<close> nor \<^verbatim>\<open>null\<close> never throws.
  \<open>getLength\<close> is \<^verbatim>\<open>v.length\<close> and \<open>getIndex0\<close> is \<^verbatim>\<open>v[0]\<close>; \<open>getProp\<close> reads a named
  property that no string, array, number or boolean has.
\<close>

definition lookupKey :: "(string \<times> jsval) list \<Rightarrow> string \<Rightarrow> jsval" where
  "lookupKey kvs k = (case map_of kvs k of None \<Rightarrow> Undefined | Some v \<Rightarrow> v)"

fun getLength :: "jsval \<Rightarrow> jsval" where
  "getLength (Str s) = Num (Fin (of_nat (length s)))"
| "getLength (Arr xs) = Num (Fin (of_nat (length xs)))"
| "getLength (Obj kvs) = lookupKey kvs ''length''"
| "getLength _ = Undefined"

fun getIndex0 :: "jsval \<Rightarrow> jsval" where
  "getIndex0 (Str s) = (case s of [] \<Rightarrow> Undefined | c # _ \<Rightarrow> Str [c])"
| "getIndex0 (Arr xs) = (case xs of [] \<Rightarrow> Undefined | x # _ \<Rightarrow> x)"
| "getIndex0 (Obj kvs) = lookupKey kvs ''0''"
| "getIndex0 _ = Undefined"

fun getProp :: "jsval \<Rightarrow> string \<Rightarrow> error + jsval" where
  "getProp Undefined k = Inl (typeError Undefined k)"
| "getProp Null k = Inl (typeError Null k)"
| "getProp (Obj kvs) k = Inr (lookupKey kvs k)"
| "getProp _ k = Inr Undefined"

text \<open>\<^verbatim>\<open>v && v.length > 0\<close>, the guard of the photo, category and preparation-step sections.\<close>

definition nonEmpty :: "host \<Rightarrow> jsval \<Rightarrow> bool" where
  "nonEmpty h v \<longleftrightarrow> truthy v \<and> jlt (Fin 0) (toNumber h (getLength v))"

text \<open>\<^verbatim>\<open>s.split('\n')\<close> of a string: the pieces between the separators, never an empty list.\<close>

fun splitOn :: "jschar \<Rightarrow> jsstring \<Rightarrow> jsstring list" where
  "splitOn c [] = [[]]"
| "splitOn c (x # xs) =
     (if x = c then [] # splitOn c xs
      else (case splitOn c xs of [] \<Rightarrow> [[x]] | p # ps \<Rightarrow> (x # p) # ps))"

section \<open>Dates of the runtime\<close>

text \<open>
  \<^verbatim>\<open>new Date(v)\<close> for a number \<open>v\<close> holds the time value TimeClip(\<open>v\<close>): the number
  truncated to an integer of milliseconds, or no time value (an Invalid Date, \<open>None\<close>)
  when \<open>v\<close> is not finite or beyond 8.64e15 in magnitude.
\<close>

definition truncInt :: "rat \<Rightarrow> int" where
  "truncInt r = (if r < 0 then - \<lfloor>- r\<rfloor> else \<lfloor>r\<rfloor>)"

definition newDate :: "jsnum \<Rightarrow> int option" where
  "newDate v = (case v of
       Fin r \<Rightarrow> (if \<bar>r\<bar> \<le> 8640000000000000 then Some (truncInt r) else None)
     | _ \<Rightarrow> None)"

text \<open>
  The calendar of ECMAScript (section "Time Values and Time Range"), on day numbers:
  \<open>dayFromYear\<close> and \<open>daysInYear\<close> are the standard's DayFromYear and DaysInYear,
  \<open>yearFromDay\<close> is YearFromTime (the year \<open>y\<close> with
  \<open>dayFromYear y \<le> d < dayFromYear (y + 1)\<close>, found from an estimate that is off by at
  most one), \<open>monthFromDay\<close> and \<open>dateFromDay\<close> are the tables of MonthFromTime
  (0 is January) and DateFromTime.
\<close>

definition dayFromYear :: "int \<Rightarrow> int" where
  "dayFromYear y =
     365 * (y - 1970) + (y - 1969) div 4 - (y - 1901) div 100 + (y - 1601) div 400"

definition daysInYear :: "int \<Rightarrow> int" where
  "daysInYear y = (if y mod 4 \<noteq> 0 then 365 else if y mod 100 \<noteq> 0 then 366
                   else if y mod 400 \<noteq> 0 then 365 else 366)"

definition yearFromDay :: "int \<Rightarrow> int" where
  "yearFromDay d = (let y = 1970 + (400 * d) div 146097 in
     if dayFromYear (y + 1) \<le> d then y + 1 else if d < dayFromYear y then y - 1 else y)"

definition dayWithinYear :: "int \<Rightarrow> int" where
  "dayWithinYear d = d - dayFromYear (yearFromDay d)"

definition inLeapYear :: "int \<Rightarrow> int" where
  "inLeapYear d = daysInYear (yearFromDay d) - 365"

definition monthFromDay :: "int \<Rightarrow> nat" where
  "monthFromDay d = (let w = dayWithinYear d; l = inLeapYear d in
     if w < 31 then 0 else if w < 59 + l then 1 else if w < 90 + l then 2
     else if w < 120 + l then 3 else if w < 151 + l then 4 else if w < 181 + l then 5
     else if w < 212 + l then 6 else if w < 243 + l then 7 else if w < 273 + l then 8
     else if w < 304 + l then 9 else if w < 334 + l then 10 else 11)"

definition dateFromDay :: "int \<Rightarrow> int" where
  "dateFromDay d = (let w = dayWithinYear d; l = inLeapYear d; m = monthFromDay d in
     if m = 0 then w + 1 else if m = 1 then w - 30 else if m = 2 then w - 58 - l
     else if m = 3 then w - 89 - l else if m = 4 then w - 119 - l
     else if m = 5 then w - 150 - l else if m = 6 then w - 180 - l
     else if m = 7 then w - 211 - l else if m = 8 then w - 242 - l
     else if m = 9 then w - 272 - l else if m = 10 then w - 303 - l else w - 333 - l)"

text \<open>
  Local time: \<^verbatim>\<open>getFullYear\<close> and \<^verbatim>\<open>toLocaleDateString\<close> both read the date in the
  host's time zone. \<open>localDay\<close> is the day number of the local date of a time value.
\<close>

definition localDay :: "host \<Rightarrow> int \<Rightarrow> int" where
  "localDay h t = (t + localOffset h t) div 86400000"

definition getFullYear :: "host \<Rightarrow> int option \<Rightarrow> jsnum" where
  "getFullYear h date = (case date of
       None \<Rightarrow> NaN
     | Some t \<Rightarrow> Fin (of_int (yearFromDay (localDay h t))))"

text \<open>
  \<^verbatim>\<open>toLocaleDateString('en-US', options)\<close> for the two option objects of the source:
  \<open>NumericDate\<close> is \<^verbatim>\<open>{year: 'numeric', month: '2-digit', day: '2-digit'}\<close>, which prints
  \<^verbatim>\<open>MM/DD/YYYY\<close>, and \<open>LongDate\<close> is \<^verbatim>\<open>{year: 'numeric', month: 'long', day: 'numeric'}\<close>,
  which prints \<^verbatim>\<open>Month D, YYYY\<close>. An Invalid Date prints \<^verbatim>\<open>Invalid Date\<close>. The source
  prints a date only when its year is at least 2000, so the year is printed as the
  decimal digits of a natural number.
\<close>

datatype dateOptions = NumericDate | LongDate

definition pad2 :: "nat \<Rightarrow> jsstring" where
  "pad2 n = (if n < 10 then digitChar 0 # digits n else digits n)"

definition monthNames :: "string list" where
  "monthNames = [''January'', ''February'', ''March'', ''April'', ''May'', ''June'', ''July'',
                 ''August'', ''September'', ''October'', ''November'', ''December'']"

definition toLocaleDateString :: "host \<Rightarrow> dateOptions \<Rightarrow> int option \<Rightarrow> jsstring" where
  "toLocaleDateString h opts date = (case date of
       None \<Rightarrow> lit ''Invalid Date''
     | Some t \<Rightarrow>
         (let d = localDay h t; y = nat (yearFromDay d); m = monthFromDay d;
              dd = nat (dateFromDay d)
          in case opts of
               NumericDate \<Rightarrow> pad2 (m + 1) @ lit ''/'' @ pad2 dd @ lit ''/'' @ digits y
             | LongDate \<Rightarrow> lit (monthNames ! m) @ lit '' '' @ digits dd @ lit '', '' @ digits y))"

section \<open>formatDate\<close>

text \<open>
  \<^verbatim>\<open>function formatDate(timestamp) { const date = new Date(timestamp * 1000); return {
     fileName: date.getFullYear() < 2000 ? '' : date.toLocaleDateString('en-US', {...}).replace(/\//g, '-'),
     display: date.getFullYear() < 2000 ? 'Unknown' : date.toLocaleDateString('en-US', {...}) }; }\<close>

  The product \<^verbatim>\<open>timestamp * 1000\<close> is taken exactly. Within the range of Date it is below
  \<open>2^53\<close>, where every integer is a double: for a whole number of seconds the engine's
  product is the same, and for a fraction of a second it differs by less than a
  millisecond.
\<close>

record dateStrings =
  fileName :: jsstring
  display :: jsstring

definition replaceSlashes :: "jsstring \<Rightarrow> jsstring" where
  "replaceSlashes s = map (\<lambda>c. if c = 0x2F then 0x2D else c) s"

definition formatDate :: "host \<Rightarrow> jsval \<Rightarrow> dateStrings" where
  "formatDate h timestamp =
     (let date = newDate (jmul (toNumber h timestamp) (Fin 1000)) in
      \<lparr> fileName =
          (if jlt (getFullYear h date) (Fin 2000) then []
           else replaceSlashes (toLocaleDateString h NumericDate date)),
        display =
          (if jlt (getFullYear h date) (Fin 2000) then lit ''Unknown''
           else toLocaleDateString h LongDate date) \<rparr>)"

section \<open>The document\<close>

text \<open>
  A document is the sequence of calls the source makes on its \<^verbatim>\<open>PDFDocument\<close>, in order:
  \<^verbatim>\<open>fontSize(n)\<close>, \<^verbatim>\<open>font(name)\<close>, \<^verbatim>\<open>text(value, options)\<close> (the options object as its
  list of properties), \<^verbatim>\<open>moveDown(lines)\<close> (one line when called without an argument),
  \<^verbatim>\<open>image(buffer, x, y, {width, height})\<close> with \<open>y\<close> the cursor \<^verbatim>\<open>doc.y\<close> at that moment,
  the assignment \<^verbatim>\<open>doc.y = y\<close> that puts the cursor back, and \<^verbatim>\<open>end()\<close>. What the PDF
  library makes of the calls is outside the repository.
\<close>

datatype docop =
    FontSize nat
  | Font string
  | Text jsval "(string \<times> jsval) list"
  | MoveDown rat
  | ImageAtY buffer jsnum jsnum jsnum
  | ResetY
  | EndDoc

text \<open>The console: \<^verbatim>\<open>console.log(message)\<close>, \<^verbatim>\<open>console.error(message, error)\<close> and
  \<^verbatim>\<open>console.error(error)\<close>.\<close>

datatype logline =
    ConsoleLog jsstring
  | ConsoleError jsstring error
  | ConsoleErrorOnly error

text \<open>
  The calls a piece of the rendering made, and the error it threw, if any. \<open>andThen\<close>
  is sequencing: nothing runs after a throw.
\<close>

type_synonym emitted = "docop list \<times> error option"

definition emit :: "docop list \<Rightarrow> emitted" where
  "emit ops = (ops, None)"

definition raise :: "error \<Rightarrow> emitted" where
  "raise e = ([], Some e)"

fun andThen :: "emitted \<Rightarrow> emitted \<Rightarrow> emitted" where
  "andThen (ops, Some e) _ = (ops, Some e)"
| "andThen (ops, None) (ops', e) = (ops @ ops', e)"

text \<open>The page: size \<^verbatim>\<open>LETTER\<close> is 612 points wide; the margins are 72 points.\<close>

definition pageWidth :: jsnum where
  "pageWidth = Fin 612"

definition marginRight :: jsnum where
  "marginRight = Fin 72"

section \<open>The sections of a recipe document\<close>

text \<open>Lines 115-116: the title.\<close>

definition secTitle :: "recipe \<Rightarrow> docop list" where
  "secTitle r =
     [FontSize 24, Font ''Helvetica-Bold'', Text (name r) [(''align'', Str (lit ''center''))],
      MoveDown 1]"

text \<open>
  Lines 35-49: \<^verbatim>\<open>downloadImage\<close> rejects on a transport error, on a status other than
  200 and on an error of the response stream, and resolves with the body otherwise.
\<close>

definition downloadImage :: "host \<Rightarrow> jsstring \<Rightarrow> error + buffer" where
  "downloadImage h url = (case httpsGet h url of
       Inl e \<Rightarrow> Inl e
     | Inr res \<Rightarrow>
         (if statusCode res \<noteq> 200
          then Inl (Error (lit ''Failed to download image: '' @ digits (statusCode res)))
          else body res))"

text \<open>
  Lines 119-148: the photo, inside its own \<^verbatim>\<open>try\<close>/\<^verbatim>\<open>catch\<close>. The result is the calls
  made on the document and the lines written to the console; nothing is thrown. The
  ratio and the sizes are computed in doubles. The \<^verbatim>\<open>image\<close> call can throw as the
  download and the decoder can (the library refuses a number that is not finite, and
  for an image of 0 by 0 the ratio is \<^verbatim>\<open>Infinity\<close> and both sizes are \<^verbatim>\<open>NaN\<close>): the
  \<^verbatim>\<open>catch\<close> then logs the failure, no image is placed and \<^verbatim>\<open>doc.y = y\<close> is not reached.
\<close>

definition photoFailed :: "host \<Rightarrow> recipe \<Rightarrow> error \<Rightarrow> logline" where
  "photoFailed h r e =
     ConsoleError (lit ''Failed to add photo for '' @ toStr h (name r) @ lit '':'') e"

definition secPhoto :: "host \<Rightarrow> recipe \<Rightarrow> docop list \<times> logline list" where
  "secPhoto h r =
     (if nonEmpty h (photoIds r) then
        (let photoUrl = lit ''https://photos.anylist.com/'' @ toStr h (getIndex0 (photoIds r))
                        @ lit ''.jpg''
         in case downloadImage h photoUrl of
              Inl e \<Rightarrow> ([], [photoFailed h r e])
            | Inr imageBuffer \<Rightarrow>
                (case openImage h imageBuffer of
                   Inl e \<Rightarrow> ([], [photoFailed h r e])
                 | Inr (imageWidth, imageHeight) \<Rightarrow>
                     (let maxWidth = Fin 200;
                          maxHeight = Fin 200;
                          ratio = jmin (ddiv maxWidth (Fin (of_nat imageWidth)))
                                       (ddiv maxHeight (Fin (of_nat imageHeight)));
                          width = dmul (Fin (of_nat imageWidth)) ratio;
                          height = dmul (Fin (of_nat imageHeight)) ratio;
                          x = dsub (dsub pageWidth marginRight) width
                      in case imageError h imageBuffer x width height of
                           Some e \<Rightarrow> ([], [photoFailed h r e])
                         | None \<Rightarrow> ([ImageAtY imageBuffer x width height, ResetY], []))))
      else ([], []))"

text \<open>Lines 151-154: the creation date.\<close>

definition secCreated :: "host \<Rightarrow> recipe \<Rightarrow> dateStrings \<Rightarrow> docop list" where
  "secCreated h r dateStr =
     [FontSize 12, Font ''Helvetica-Bold'',
      Text (Str (lit ''Created:'')) [(''continued'', Bool True)],
      Font (if jlt (getFullYear h (newDate (jmul (toNumber h (creationTimestamp r)) (Fin 1000))))
                   (Fin 2000)
            then ''Helvetica-Oblique'' else ''Helvetica''),
      Text (Str (lit '' '' @ display dateStr)) [(''align'', Str (lit ''left''))],
      MoveDown 1]"

text \<open>Lines 157-189: the source.\<close>

definition linkOptions :: "recipe \<Rightarrow> (string \<times> jsval) list" where
  "linkOptions r =
     [(''align'', Str (lit ''left'')), (''link'', sourceUrl r), (''underline'', Bool True),
      (''color'', Str (lit ''blue'')), (''width'', Num pageWidth), (''lineBreak'', Bool False)]"

definition secSource :: "recipe \<Rightarrow> docop list" where
  "secSource r =
     (if truthy (sourceName r) \<or> truthy (sourceUrl r) then
        [FontSize 12, Font ''Helvetica-Bold'',
         Text (Str (lit ''Source:'')) [(''align'', Str (lit ''left''))], Font ''Helvetica'']
        @ (if truthy (sourceName r) \<and> truthy (sourceUrl r)
           then [FontSize 12, Text (sourceName r) (linkOptions r)]
           else (if truthy (sourceName r)
                 then [FontSize 12, Text (sourceName r) [(''align'', Str (lit ''left''))]]
                 else [])
              @ (if truthy (sourceUrl r)
                 then [MoveDown 1, FontSize 12, Font ''Helvetica-Bold'',
                       Text (Str (lit ''Source URL:'')) [(''align'', Str (lit ''left''))],
                       FontSize 12, Text (sourceUrl r) (linkOptions r)]
                 else []))
        @ [MoveDown 1]
      else [])"

text \<open>Lines 192-196: the servings.\<close>

definition secServings :: "host \<Rightarrow> recipe \<Rightarrow> docop list" where
  "secServings h r =
     (if truthy (servings r) then
        [FontSize 12, Font ''Helvetica-Bold'',
         Text (Str (lit ''Servings:'')) [(''continued'', Bool True)], Font ''Helvetica'',
         Text (Str (lit '' '' @ toStr h (servings r))) [], MoveDown 1]
      else [])"

text \<open>Lines 199-208: the rating.\<close>

definition secRating :: "host \<Rightarrow> recipe \<Rightarrow> docop list" where
  "secRating h r =
     (if truthy (rating r) then
        [FontSize 12, Font ''Helvetica-Bold'',
         Text (Str (lit ''Rating:'')) [(''continued'', Bool True)], Font ''Helvetica'',
         Text (Str (lit '' '' @ toStr h (rating r) @ lit '' stars'')) [], MoveDown 1]
      else
        [FontSize 12, Font ''Helvetica-Bold'',
         Text (Str (lit ''Rating:'')) [(''continued'', Bool True)], Font ''Helvetica'',
         Text (Str (lit '' No rating available'')) [], MoveDown 1])"

text \<open>Lines 211-217: the preparation and cooking times, in minutes.\<close>

definition minutes :: "host \<Rightarrow> jsval \<Rightarrow> jsstring" where
  "minutes h seconds = toStr h (Num (ddiv (toNumber h seconds) (Fin 60)))"

definition secTimes :: "host \<Rightarrow> recipe \<Rightarrow> docop list" where
  "secTimes h r =
     (if truthy (prepTime r) \<or> truthy (cookTime r) then
        (let times =
               (if truthy (prepTime r)
                then [lit ''Prep Time: '' @ minutes h (prepTime r) @ lit '' min''] else [])
             @ (if truthy (cookTime r)
                then [lit ''Cook Time: '' @ minutes h (cookTime r) @ lit '' min''] else [])
         in [FontSize 12, Text (Str (joinWith (lit '' | '') times)) [], MoveDown 1])
      else [])"

text \<open>
  Lines 220-223: the categories. \<^verbatim>\<open>fontSize(12)\<close> is called before the argument of
  \<^verbatim>\<open>text\<close> is evaluated, and only an array has a \<^verbatim>\<open>join\<close> method.
\<close>

definition secCategories :: "host \<Rightarrow> recipe \<Rightarrow> emitted" where
  "secCategories h r =
     (if nonEmpty h (categories r) then
        andThen (emit [FontSize 12])
          (case categories r of
             Arr xs \<Rightarrow>
               emit [Text (Str (lit ''Categories: '' @ arrayJoin h (lit '', '') xs)) [],
                     MoveDown 1]
           | v \<Rightarrow> raise (typeError v ''join''))
      else emit [])"

text \<open>Lines 226-230: the notes, read from \<^verbatim>\<open>recipe.notes\<close>.\<close>

definition secNotesEarly :: "recipe \<Rightarrow> docop list" where
  "secNotesEarly r =
     (if truthy (notes' r) then
        [FontSize 14, Text (Str (lit ''Notes:'')) [], FontSize 12, Text (notes' r) [], MoveDown 1]
      else [])"

text \<open>
  Lines 235-243: the ingredients. Only an array has a \<^verbatim>\<open>forEach\<close> method; reading
  \<^verbatim>\<open>rawIngredient\<close> of an \<^verbatim>\<open>undefined\<close> or \<^verbatim>\<open>null\<close> element throws.
\<close>

fun eachIngredient :: "host \<Rightarrow> jsval list \<Rightarrow> emitted" where
  "eachIngredient h [] = emit []"
| "eachIngredient h (ingredient # rest) =
     andThen
       (andThen (emit [FontSize 12])
          (case getProp ingredient ''rawIngredient'' of
             Inl e \<Rightarrow> raise e
           | Inr v \<Rightarrow> emit [Text (Str (toStr h v)) []]))
       (eachIngredient h rest)"

definition secIngredients :: "host \<Rightarrow> recipe \<Rightarrow> emitted" where
  "secIngredients h r =
     andThen
       (emit [MoveDown (1 / 2), FontSize 16, Font ''Helvetica-Bold'',
              Text (Str (lit ''Ingredients:'')) [], MoveDown (1 / 2), Font ''Helvetica''])
       (case ingredients r of
          Arr xs \<Rightarrow> eachIngredient h xs
        | v \<Rightarrow> raise (typeError v ''forEach''))"

text \<open>
  Lines 246-257: the instructions: the lines of the string that are not blank, trimmed
  and numbered from 1. Only a string has a \<^verbatim>\<open>split\<close> method.
\<close>

definition instructionStep :: "nat \<times> jsstring \<Rightarrow> docop list" where
  "instructionStep p = (case p of (index, step) \<Rightarrow>
     [FontSize 12, Text (Str (digits (index + 1) @ lit ''. '' @ trim step)) [],
      MoveDown (1 / 2)])"

definition secInstructions :: "recipe \<Rightarrow> emitted" where
  "secInstructions r =
     (if truthy (instructions r) then
        andThen
          (emit [MoveDown 1, FontSize 16, Font ''Helvetica-Bold'',
                 Text (Str (lit ''Instructions:'')) [], MoveDown (1 / 2), Font ''Helvetica''])
          (case instructions r of
             Str s \<Rightarrow>
               (let steps = filter (\<lambda>step. truthy (Str (trim step))) (splitOn 0x0A s)
                in emit (concat (map instructionStep (enumerate 0 steps))))
           | v \<Rightarrow> raise (typeError v ''split''))
      else emit [])"

text \<open>
  Lines 260-281: the preparation steps, with the mutable counter \<^verbatim>\<open>stepNumber\<close> as an
  argument of the loop. Only a string has a \<^verbatim>\<open>trim\<close> method.
\<close>

definition startsWithHash :: "jsstring \<Rightarrow> bool" where
  "startsWithHash s = (case s of [] \<Rightarrow> False | c # _ \<Rightarrow> c = 0x23)"

fun eachStep :: "nat \<Rightarrow> jsval list \<Rightarrow> emitted" where
  "eachStep stepNumber [] = emit []"
| "eachStep stepNumber (step # rest) =
     (case step of
        Str s \<Rightarrow>
          (let trimmedStep = trim s in
           if startsWithHash trimmedStep
           then andThen
                  (emit [FontSize 12, Font ''Helvetica-Bold'',
                         Text (Str (trim (drop 1 trimmedStep))) [], MoveDown (1 / 2)])
                  (eachStep stepNumber rest)
           else andThen
                  (emit [FontSize 12, Font ''Helvetica-Bold'',
                         Text (Str (digits stepNumber @ lit ''.'')) [(''continued'', Bool True)],
                         Font ''Helvetica'', Text (Str (lit '' '' @ trimmedStep)) [],
                         MoveDown (1 / 2)])
                  (eachStep (stepNumber + 1) rest))
      | v \<Rightarrow> raise (typeError v ''trim''))"

definition secPrepSteps :: "host \<Rightarrow> recipe \<Rightarrow> emitted" where
  "secPrepSteps h r =
     (if nonEmpty h (preparationSteps r) then
        andThen
          (emit [MoveDown 1, FontSize 16, Font ''Helvetica-Bold'',
                 Text (Str (lit ''Preparation Steps:'')) [], MoveDown (1 / 2)])
          (case preparationSteps r of
             Arr xs \<Rightarrow> eachStep 1 xs
           | v \<Rightarrow> raise (typeError v ''forEach''))
      else emit [])"

text \<open>Lines 284-290: the notes again, read from \<^verbatim>\<open>recipe.note || recipe.notes\<close>.\<close>

definition secNotesLate :: "recipe \<Rightarrow> docop list" where
  "secNotesLate r =
     (if truthy (note' r) \<or> truthy (notes' r) then
        [MoveDown 1, FontSize 16, Font ''Helvetica-Bold'', Text (Str (lit ''Notes:'')) [],
         MoveDown (1 / 2), FontSize 12, Font ''Helvetica'',
         Text (if truthy (note' r) then note' r else notes' r) [], MoveDown 1]
      else [])"

text \<open>Lines 293-304: the nutritional information, one call of \<^verbatim>\<open>text\<close> per line.\<close>

definition secNutrition :: "recipe \<Rightarrow> emitted" where
  "secNutrition r =
     (if truthy (nutritionalInfo r) then
        andThen
          (emit [MoveDown 1, FontSize 16, Font ''Helvetica-Bold'',
                 Text (Str (lit ''Nutritional Information:'')) [], MoveDown (1 / 2),
                 Font ''Helvetica''])
          (case nutritionalInfo r of
             Str s \<Rightarrow>
               emit (concat (map (\<lambda>line. [FontSize 12, Text (Str line) []]) (splitOn 0x0A s))
                     @ [MoveDown 1])
           | v \<Rightarrow> raise (typeError v ''split''))
      else emit [])"

section \<open>Rendering one recipe\<close>

text \<open>
  Lines 115-307, the calls on the document in source order, up to the first throw.
  \<open>docCalls\<close> are the calls made, \<open>consoleLines\<close> what was logged meanwhile (a photo
  failure; \<^verbatim>\<open>Created PDF for: ...\<close> once \<^verbatim>\<open>doc.end()\<close> has been called), \<open>thrown\<close> the
  error that stopped the rendering, if any.
\<close>

record rendering =
  docCalls :: "docop list"
  consoleLines :: "logline list"
  thrown :: "error option"

definition createdLine :: "host \<Rightarrow> recipe \<Rightarrow> logline" where
  "createdLine h r = ConsoleLog (lit ''Created PDF for: '' @ toStr h (name r))"

definition renderBody :: "host \<Rightarrow> recipe \<Rightarrow> dateStrings \<Rightarrow> rendering" where
  "renderBody h r dateStr =
     (case secPhoto h r of (photoCalls, photoLines) \<Rightarrow>
      (case
         andThen (emit (secTitle r @ photoCalls @ secCreated h r dateStr @ secSource r
                        @ secServings h r @ secRating h r @ secTimes h r))
        (andThen (secCategories h r)
        (andThen (emit (secNotesEarly r))
        (andThen (secIngredients h r)
        (andThen (secInstructions r)
        (andThen (secPrepSteps h r)
        (andThen (emit (secNotesLate r))
        (andThen (secNutrition r)
                 (emit [EndDoc]))))))))
       of (calls, err) \<Rightarrow>
         \<lparr> docCalls = calls,
           consoleLines = photoLines
             @ (if err = None then [createdLine h r] else []),
           thrown = err \<rparr>))"

section \<open>The file system and the promise of one recipe\<close>

text \<open>
  The world the run changes: the directories that exist (paths relative to the working
  directory), the files written, in order (a later entry for a path replaces an earlier
  one), and the console. A file is the JSON text of a list of recipes
  (\<^verbatim>\<open>JSON.stringify(recipes, null, 2)\<close>) or the document a sequence of calls produced.
  A write into a directory that does not exist fails with \<^verbatim>\<open>ENOENT\<close>.
\<close>

datatype content = JsonArchive "recipe list" | PdfFile "docop list"

record world =
  dirs :: "jsstring list"
  files :: "(jsstring \<times> content) list"
  console :: "logline list"

definition consoleAdd :: "logline list \<Rightarrow> world \<Rightarrow> world" where
  "consoleAdd ls w = w\<lparr>console := console w @ ls\<rparr>"

definition putFile :: "jsstring \<Rightarrow> content \<Rightarrow> world \<Rightarrow> world" where
  "putFile p c w = w\<lparr>files := files w @ [(p, c)]\<rparr>"

definition outDir :: jsstring where
  "outDir = lit ''recipe-pdfs''"

definition writeFile :: "jsstring \<Rightarrow> content \<Rightarrow> world \<Rightarrow> error + world" where
  "writeFile base c w =
     (if outDir \<in> set (dirs w) then Inr (putFile (outDir @ lit ''/'' @ base) c w)
      else Inl (SystemError ''ENOENT''))"

definition mkdirRecursive :: "world \<Rightarrow> world" where
  "mkdirRecursive w = (if outDir \<in> set (dirs w) then w else w\<lparr>dirs := dirs w @ [outDir]\<rparr>)"

text \<open>
  The error event of \<^verbatim>\<open>fs.createWriteStream(outputPath)\<close>, if there is one: \<^verbatim>\<open>ENOENT\<close>
  when the directory is missing, otherwise what the host says about the path. Paths are
  joined with \<^verbatim>\<open>/\<close>, as \<^verbatim>\<open>path.join\<close> does on POSIX systems.
\<close>

definition streamFailure :: "host \<Rightarrow> world \<Rightarrow> jsstring \<Rightarrow> error option" where
  "streamFailure h w base =
     (if outDir \<in> set (dirs w) then streamError h (outDir @ lit ''/'' @ base)
      else Some (SystemError ''ENOENT''))"

text \<open>
  Lines 90-308: \<^verbatim>\<open>await new Promise(async (resolve, reject) => { ... })\<close>. The promise is
  resolved by the stream's \<^verbatim>\<open>finish\<close> event, which \<^verbatim>\<open>doc.end()\<close> leads to, and rejected by
  the stream's \<^verbatim>\<open>error\<close> event. The executor is an \<^verbatim>\<open>async\<close> function: an error thrown in
  it rejects the executor's own promise, which nothing awaits, and neither resolves nor
  rejects the promise that is awaited. That promise then stays pending (\<open>Pending\<close>,
  with the error that was thrown): the \<^verbatim>\<open>await\<close> never returns. (Node.js from version 15
  on ends the process at such an unhandled rejection.) \<^verbatim>\<open>fs.createWriteStream\<close> itself
  throws, in the executor, for a path that holds a NUL code unit, which
  \<^verbatim>\<open>sanitizeFilename\<close> does not remove. The events of one recipe are kept together here:
  where a stream error arrives while the executor waits for the photo, the source
  catches it and moves on to the next recipe before the rest of this recipe's events.
\<close>

datatype settled = Resolved | Rejected error | Pending error

definition nullBytePath :: error where
  "nullBytePath =
     TypeError ''The argument path must be a string, Uint8Array, or URL without null bytes''"

definition renderRecipe :: "host \<Rightarrow> recipe \<Rightarrow> world \<Rightarrow> settled \<times> world" where
  "renderRecipe h r w =
     (let dateStr = formatDate h (creationTimestamp r) in
      case sanitizeFilename (name r) of
        Inl e \<Rightarrow> (Pending e, w)
      | Inr safeName \<Rightarrow>
          (let filename = (if fileName dateStr \<noteq> [] then fileName dateStr @ lit '' - '' else [])
                          @ safeName;
               base = filename @ lit ''.pdf''
           in if 0 \<in> set base then (Pending nullBytePath, w)
              else
                (let failure = streamFailure h w base;
                     b = renderBody h r dateStr;
                     w1 = consoleAdd (consoleLines b) w;
                     w2 = (if failure = None
                           then putFile (outDir @ lit ''/'' @ base) (PdfFile (docCalls b)) w1
                           else w1)
                 in case thrown b of
                      Some e \<Rightarrow> (Pending e, w2)
                    | None \<Rightarrow>
                        (case failure of None \<Rightarrow> (Resolved, w2) | Some e \<Rightarrow> (Rejected e, w2)))))"

section \<open>downloadRecipes\<close>

text \<open>
  Lines 82-314: the loop over the selected recipes. A rejected promise is caught and
  logged with the recipe's name, and the loop goes on; a pending promise stops the loop
  for good (the result is the error that was thrown in the executor).
\<close>

definition createFailed :: "host \<Rightarrow> recipe \<Rightarrow> error \<Rightarrow> logline" where
  "createFailed h r e =
     ConsoleError (lit ''Failed to create PDF for '' @ toStr h (name r) @ lit '':'') e"

fun forEachRecipe :: "host \<Rightarrow> recipe list \<Rightarrow> world \<Rightarrow> error option \<times> world" where
  "forEachRecipe h [] w = (None, w)"
| "forEachRecipe h (r # rest) w =
     (case renderRecipe h r w of
        (Resolved, w1) \<Rightarrow> forEachRecipe h rest w1
      | (Rejected e, w1) \<Rightarrow> forEachRecipe h rest (consoleAdd [createFailed h r e] w1)
      | (Pending e, w1) \<Rightarrow> (Some e, w1))"

text \<open>
  The two constants of the source, \<^verbatim>\<open>generatePDF = true\<close> and
  \<^verbatim>\<open>maxPDFsToGenerate = 1000\<close>, are the configuration of the run.
  \<open>sliceFromStart xs e\<close> is \<^verbatim>\<open>xs.slice(0, e)\<close> for an integer \<open>e\<close>: a negative \<open>e\<close> counts
  from the end.
\<close>

record config =
  generatePDF :: bool
  maxPDFsToGenerate :: int

definition sourceConfig :: config where
  "sourceConfig = \<lparr> generatePDF = True, maxPDFsToGenerate = 1000 \<rparr>"

definition sliceFromStart :: "'a list \<Rightarrow> int \<Rightarrow> 'a list" where
  "sliceFromStart xs e =
     (if e < 0 then take (nat (int (length xs) + e)) xs else take (nat e) xs)"

definition recipesToProcess :: "config \<Rightarrow> recipe list \<Rightarrow> recipe list" where
  "recipesToProcess cfg recipes =
     (if maxPDFsToGenerate cfg = - 1 then recipes
      else sliceFromStart recipes (maxPDFsToGenerate cfg))"

text \<open>
  Lines 51-323. The run ends in one of three ways: \<^verbatim>\<open>process.exit(0)\<close>; a rejection of
  \<^verbatim>\<open>downloadRecipes()\<close>, which \<^verbatim>\<open>.catch(console.error)\<close> prints; or an \<^verbatim>\<open>await\<close> that never
  returns.
\<close>

datatype ending = Exited nat | Caught error | Stalled error

definition caught :: "error \<Rightarrow> world \<Rightarrow> ending \<times> world" where
  "caught e w = (Caught e, consoleAdd [ConsoleErrorOnly e] w)"

definition finish :: "host \<Rightarrow> recipe list \<Rightarrow> world \<Rightarrow> ending \<times> world" where
  "finish h recipes w =
     (let w1 = consoleAdd [ConsoleLog (lit ''Finished processing '' @ digits (length recipes)
                                       @ lit '' recipes'')] w
      in case teardown h of
           Some e \<Rightarrow> caught e w1
         | None \<Rightarrow> (Exited 0, w1))"

definition downloadRecipes :: "host \<Rightarrow> config \<Rightarrow> world \<Rightarrow> ending \<times> world" where
  "downloadRecipes h cfg w =
     (case login h of
        Some e \<Rightarrow> caught e w
      | None \<Rightarrow>
          (case getRecipes h of
             Inl e \<Rightarrow> caught e w
           | Inr recipes \<Rightarrow>
               (case writeFile (lit ''all-recipes.json'') (JsonArchive recipes) w of
                  Inl e \<Rightarrow> caught e w
                | Inr w1 \<Rightarrow>
                    (let w2 = consoleAdd [ConsoleLog (lit ''Saved all recipes to all-recipes.json'')] w1
                     in if generatePDF cfg then
                          (case forEachRecipe h (recipesToProcess cfg recipes) (mkdirRecursive w2) of
                             (Some e, w3) \<Rightarrow> (Stalled e, w3)
                           | (None, w3) \<Rightarrow> finish h recipes w3)
                        else finish h recipes w2))))"

section \<open>The preparation steps as the specification words them\<close>

text \<open>
  The specification's reading of lines 260-281, to be compared with \<open>eachStep\<close>: each
  entry is trimmed; an entry that then starts with \<^verbatim>\<open>#\<close> is a heading step, written in
  bold without its \<^verbatim>\<open>#\<close>; any other entry is written as the bold prefix \<^verbatim>\<open>n.\<close> followed by
  a space and the entry in the regular font, where \<open>n\<close> is one more than the number of
  entries before it that are not heading steps.
\<close>

definition isHeadingStep :: "jsstring \<Rightarrow> bool" where
  "isHeadingStep s = startsWithHash (trim s)"

definition stepNumberAt :: "jsstring list \<Rightarrow> nat \<Rightarrow> nat" where
  "stepNumberAt steps i = 1 + length (filter (\<lambda>s. \<not> isHeadingStep s) (take i steps))"

definition stepLines :: "nat \<Rightarrow> jsstring \<Rightarrow> docop list" where
  "stepLines n s =
     (if isHeadingStep s
      then [FontSize 12, Font ''Helvetica-Bold'', Text (Str (trim (drop 1 (trim s)))) [],
            MoveDown (1 / 2)]
      else [FontSize 12, Font ''Helvetica-Bold'',
            Text (Str (digits n @ lit ''.'')) [(''continued'', Bool True)],
            Font ''Helvetica'', Text (Str (lit '' '' @ trim s)) [], MoveDown (1 / 2)])"

definition specPrepSteps :: "jsstring list \<Rightarrow> docop list" where
  "specPrepSteps steps =
     concat (map (\<lambda>i. stepLines (stepNumberAt steps i) (steps ! i)) [0..<length steps])"

section \<open>The headings of a document\<close>

text \<open>
  The source writes a section heading at font size 14 (the early Notes heading) or 16
  (every other one), the title at 24 and all other text at 12. \<open>headings\<close> collects, in
  order, the values written by \<^verbatim>\<open>text\<close> while the font size is 14 or 16; a new document
  starts at the library's default size 12. \<open>selfSized\<close> says that a sequence of calls
  sets the size before it writes, so that its headings do not depend on the size before,
  and \<open>quiet\<close> that it writes no heading whatever the size before.
\<close>

fun headingsFrom :: "nat \<Rightarrow> docop list \<Rightarrow> jsval list" where
  "headingsFrom sz [] = []"
| "headingsFrom sz (FontSize n # ops) = headingsFrom n ops"
| "headingsFrom sz (Text t opts # ops) =
     (if sz = 14 \<or> sz = 16 then t # headingsFrom sz ops else headingsFrom sz ops)"
| "headingsFrom sz (_ # ops) = headingsFrom sz ops"

definition headings :: "docop list \<Rightarrow> jsval list" where
  "headings ops = headingsFrom 12 ops"

definition selfSized :: "docop list \<Rightarrow> bool" where
  "selfSized ops \<longleftrightarrow> (\<forall>sz. headingsFrom sz ops = headingsFrom 0 ops)"

definition quiet :: "docop list \<Rightarrow> bool" where
  "quiet ops \<longleftrightarrow> (\<forall>sz. headingsFrom sz ops = [])"

section \<open>The trace of rendered recipes\<close>


section \<open>Examples\<close>

text \<open>
  A concrete host for the closed examples: the UTC time zone, an unreachable network, a
  PDF library whose \<^verbatim>\<open>image\<close> call refuses a number that is not finite, and a recipe
  service that returns no recipes. Its number conversions stand for an engine that is
  never asked for them in the examples.
\<close>

definition unsupportedNumber :: "buffer \<Rightarrow> jsnum \<Rightarrow> jsnum \<Rightarrow> jsnum \<Rightarrow> error option" where
  "unsupportedNumber buf x width height =
     (if isFinite x \<and> isFinite width \<and> isFinite height then None
      else Some (Error (lit ''unsupported number: NaN'')))"

definition exampleHost :: host where
  "exampleHost =
     \<lparr> numberToString = (\<lambda>_. lit ''?''), stringToNumber = (\<lambda>_. NaN),
       localOffset = (\<lambda>_. 0),
       httpsGet = (\<lambda>_. Inl (SystemError ''ENOTFOUND'')),
       openImage = (\<lambda>_. Inl (SystemError ''Unknown image format.'')),
       imageError = unsupportedNumber,
       streamError = (\<lambda>_. None), login = None, getRecipes = Inr [], teardown = None \<rparr>"

text \<open>
  A recipe with a name, a creation date (5 March 2024), no photo and one ingredient, and
  a world in which the output directory exists.
\<close>

definition plainRecipe :: "string \<Rightarrow> recipe" where
  "plainRecipe n =
     \<lparr> name = Str (lit n), creationTimestamp = Num (Fin 1709596800), photoIds = Arr [],
       sourceName = Undefined, sourceUrl = Undefined, servings = Undefined,
       rating = Undefined, prepTime = Undefined, cookTime = Undefined,
       categories = Undefined, notes' = Undefined,
       ingredients = Arr [Obj [(''rawIngredient'', Str (lit ''1 egg''))]],
       instructions = Undefined, preparationSteps = Undefined, note' = Undefined,
       nutritionalInfo = Undefined \<rparr>"

definition exampleWorld :: world where
  "exampleWorld = \<lparr> dirs = [outDir], files = [], console = [] \<rparr>"

text \<open>
  Hosts whose network answers every request with an image: of 100 by 50, of 11 by 11,
  and of 0 by 0. \<open>photoRecipe\<close> is a recipe with one photo.
\<close>

definition photoHost :: host where
  "photoHost = exampleHost
     \<lparr> httpsGet := (\<lambda>_. Inr \<lparr> statusCode = 200, body = Inr [0xFF, 0xD8] \<rparr>),
       openImage := (\<lambda>_. Inr (100, 50)) \<rparr>"

definition smallPhotoHost :: host where
  "smallPhotoHost = photoHost\<lparr>openImage := (\<lambda>_. Inr (11, 11))\<rparr>"

definition emptyPhotoHost :: host where
  "emptyPhotoHost = photoHost\<lparr>openImage := (\<lambda>_. Inr (0, 0))\<rparr>"

definition photoRecipe :: recipe where
  "photoRecipe = (plainRecipe ''Soup'')\<lparr>photoIds := Arr [Str (lit ''abc'')]\<rparr>"

text \<open>
  A recipe without its \<^verbatim>\<open>ingredients\<close> field, and recipe services that return it followed
  by a well-formed recipe, or three well-formed recipes.
\<close>

definition malformedRecipe :: recipe where
  "malformedRecipe = (plainRecipe ''Bad'')\<lparr>ingredients := Undefined\<rparr>"

definition malformedFirstHost :: host where
  "malformedFirstHost = exampleHost\<lparr>getRecipes := Inr [malformedRecipe, plainRecipe ''Good'']\<rparr>"

definition threeRecipesHost :: host where
  "threeRecipesHost =
     exampleHost\<lparr>getRecipes := Inr [plainRecipe ''A'', plainRecipe ''B'', plainRecipe ''C'']\<rparr>"


section \<open>Properties of sanitizeFilename\<close>

lemma set_trim_subset: "set (trim s) \<subseteq> set s"
proof -
  have "set (trim s) \<subseteq> set (dropWhile isWhiteSpace s)"
    unfolding trim_def using set_dropWhileD by fastforce
  also have "\<dots> \<subseteq> set s"
    using set_dropWhileD by fastforce
  finally show ?thesis .
qed

lemma replaceForbidden_clean: "set (replaceForbidden s) \<inter> set forbiddenChars = {}"
  by (auto simp: replaceForbidden_def forbiddenChars_def)

lemma replaceForbidden_id:
  "set s \<inter> set forbiddenChars = {} \<Longrightarrow> replaceForbidden s = s"
  unfolding replaceForbidden_def by (induction s) auto

lemma dropWhile_rev_dropWhile:
  "dropWhile P (rev (dropWhile P (rev xs))) = rev (dropWhile P (rev (dropWhile P xs)))"
proof (cases "\<forall>x\<in>set xs. P x")
  case True
  then have e: "dropWhile P xs = []" "dropWhile P (rev xs) = []"
    by (simp_all add: dropWhile_eq_Nil_conv)
  show ?thesis unfolding e by simp
next
  case False
  then obtain ys z zs where xs: "xs = ys @ z # zs" and ys: "\<forall>y\<in>set ys. P y" and z: "\<not> P z"
    using split_list_first_prop [of xs "\<lambda>x. \<not> P x"] by auto
  have dw: "dropWhile P xs = z # zs"
    using xs ys z by (simp add: dropWhile_append3)
  show ?thesis
  proof (cases "\<forall>x\<in>set zs. P x")
    case True
    then show ?thesis using xs ys z dw by (simp add: dropWhile_append3)
  next
    case False
    then have ne: "dropWhile P (rev zs) \<noteq> []" by simp
    then show ?thesis using xs ys z dw
      by (simp add: dropWhile_append1 dropWhile_append3 ne)
  qed
qed

lemma trim_idem: "trim (trim s) = trim s"
proof -
  let ?d = "dropWhile isWhiteSpace"
  have a: "?d (rev (?d (rev (?d s)))) = rev (?d (rev (?d (?d s))))"
    by (rule dropWhile_rev_dropWhile)
  have "trim (trim s) = rev (?d (rev (?d (rev (?d (rev (?d s)))))))"
    by (simp add: trim_def)
  also have "\<dots> = rev (?d (rev (rev (?d (rev (?d (?d s)))))))"
    by (simp only: a)
  also have "\<dots> = trim s"
    by (simp add: trim_def dropWhile_idem)
  finally show ?thesis .
qed

text \<open>
  C8. For every input string \<open>x\<close>, \<open>sanitizeFilename\<close> returns a string \<open>y\<close>;
  sanitising \<open>y\<close> again returns \<open>y\<close> (idempotence), and \<open>y\<close> contains none of the ten
  characters of the class, so neither path separator (\<^verbatim>\<open>/\<close> is 0x2F, \<^verbatim>\<open>\\<close> is 0x5C).
\<close>

theorem sanitizeFilename_idempotent_clean:
  "\<exists>y. sanitizeFilename (Str x) = Inr y
     \<and> sanitizeFilename (Str y) = Inr y
     \<and> set y \<inter> set forbiddenChars = {}
     \<and> 0x2F \<notin> set y \<and> 0x5C \<notin> set y"
proof -
  let ?y = "trim (replaceForbidden x)"
  have clean: "set ?y \<inter> set forbiddenChars = {}"
    using set_trim_subset [of "replaceForbidden x"] replaceForbidden_clean [of x] by blast
  have "replaceForbidden ?y = ?y"
    using clean by (rule replaceForbidden_id)
  then have idem: "sanitizeFilename (Str ?y) = Inr ?y"
    by (simp add: sanitizeFilename_def trim_idem)
  have "0x2F \<in> set forbiddenChars" "0x5C \<in> set forbiddenChars"
    by (simp_all add: forbiddenChars_def)
  then have "0x2F \<notin> set ?y" "0x5C \<notin> set ?y"
    using clean by blast+
  with clean idem show ?thesis by (simp add: sanitizeFilename_def)
qed

section \<open>The calendar\<close>

lemma div_bounds:
  fixes a b :: int
  assumes "0 < b"
  shows "b * (a div b) \<le> a" and "a < b * (a div b) + b"
proof -
  have "a = b * (a div b) + a mod b" by simp
  moreover have "0 \<le> a mod b" "a mod b < b" using assms by simp_all
  ultimately show "b * (a div b) \<le> a" and "a < b * (a div b) + b" by linarith+
qed

lemma div_step:
  fixes x b :: int
  assumes "0 < b"
  shows "x div b = (x - 1) div b + (if x mod b = 0 then 1 else 0)"
proof (cases "x mod b = 0")
  case True
  have "x = b * (x div b) + x mod b" by simp
  with True have "x - 1 = b * (x div b - 1) + (b - 1)"
    by (simp add: algebra_simps)
  then have "(x - 1) div b = x div b - 1"
    by (rule int_div_pos_eq) (use assms in simp_all)
  with True show ?thesis by simp
next
  case False
  have "0 \<le> x mod b" using assms by simp
  with False have pos: "0 \<le> x mod b - 1" by linarith
  have lt: "x mod b - 1 < b" using pos_mod_bound [OF assms, of x] by linarith
  have "x = b * (x div b) + x mod b" by simp
  then have "x - 1 = b * (x div b) + (x mod b - 1)" by linarith
  then have "(x - 1) div b = x div b"
    using pos lt by (rule int_div_pos_eq)
  with False show ?thesis by simp
qed

lemma leap_mods:
  fixes y :: int
  shows "(y - 1968) mod 4 = 0 \<longleftrightarrow> y mod 4 = 0"
    and "(y - 1900) mod 100 = 0 \<longleftrightarrow> y mod 100 = 0"
    and "(y - 1600) mod 400 = 0 \<longleftrightarrow> y mod 400 = 0"
    and "y mod 100 = 0 \<Longrightarrow> y mod 4 = 0"
    and "y mod 400 = 0 \<Longrightarrow> y mod 100 = 0"
proof -
  have d: "(4::int) dvd 1968" "(100::int) dvd 1900" "(400::int) dvd 1600"
    "(4::int) dvd 100" "(100::int) dvd 400"
    by simp_all
  show "(y - 1968) mod 4 = 0 \<longleftrightarrow> y mod 4 = 0"
    using d(1) by (simp only: mod_eq_0_iff_dvd dvd_diff_left_iff)
  show "(y - 1900) mod 100 = 0 \<longleftrightarrow> y mod 100 = 0"
    using d(2) by (simp only: mod_eq_0_iff_dvd dvd_diff_left_iff)
  show "(y - 1600) mod 400 = 0 \<longleftrightarrow> y mod 400 = 0"
    using d(3) by (simp only: mod_eq_0_iff_dvd dvd_diff_left_iff)
  show "y mod 100 = 0 \<Longrightarrow> y mod 4 = 0"
    using d(4) by (simp only: mod_eq_0_iff_dvd) (rule dvd_trans)
  show "y mod 400 = 0 \<Longrightarrow> y mod 100 = 0"
    using d(5) by (simp only: mod_eq_0_iff_dvd) (rule dvd_trans)
qed

lemma dayFromYear_Suc: "dayFromYear (y + 1) = dayFromYear y + daysInYear y"
proof -
  define p4 :: int where "p4 = (if y mod 4 = 0 then 1 else 0)"
  define p100 :: int where "p100 = (if y mod 100 = 0 then 1 else 0)"
  define p400 :: int where "p400 = (if y mod 400 = 0 then 1 else 0)"
  have a: "(y - 1968) div 4 = (y - 1969) div 4 + p4"
    using div_step [of 4 "y - 1968"] by (simp add: leap_mods p4_def)
  have b: "(y - 1900) div 100 = (y - 1901) div 100 + p100"
    using div_step [of 100 "y - 1900"] by (simp add: leap_mods p100_def)
  have c: "(y - 1600) div 400 = (y - 1601) div 400 + p400"
    using div_step [of 400 "y - 1600"] by (simp add: leap_mods p400_def)
  have "dayFromYear (y + 1) =
      365 * (y - 1969) + (y - 1968) div 4 - (y - 1900) div 100 + (y - 1600) div 400"
    by (simp add: dayFromYear_def)
  then have eq: "dayFromYear (y + 1) = dayFromYear y + (365 + p4 - p100 + p400)"
    unfolding a b c dayFromYear_def by (simp add: algebra_simps)
  have "daysInYear y = 365 + p4 - p100 + p400"
  proof (cases "y mod 4 = 0")
    case False
    have n100: "y mod 100 \<noteq> 0"
    proof
      assume "y mod 100 = 0"
      then have "y mod 4 = 0" by (rule leap_mods(4))
      with False show False by contradiction
    qed
    have "y mod 400 \<noteq> 0"
    proof
      assume "y mod 400 = 0"
      then have "y mod 100 = 0" by (rule leap_mods(5))
      with n100 show False by contradiction
    qed
    with False n100 show ?thesis by (simp add: daysInYear_def p4_def p100_def p400_def)
  next
    case y4: True
    show ?thesis
    proof (cases "y mod 100 = 0")
      case False
      have "y mod 400 \<noteq> 0"
      proof
        assume "y mod 400 = 0"
        then have "y mod 100 = 0" by (rule leap_mods(5))
        with False show False by contradiction
      qed
      with y4 False show ?thesis by (simp add: daysInYear_def p4_def p100_def p400_def)
    next
      case True
      with y4 show ?thesis by (simp add: daysInYear_def p4_def p100_def p400_def)
    qed
  qed
  with eq show ?thesis by simp
qed

lemma dayFromYear_estimate:
  "146097 * (y - 1970) - 600 \<le> 400 * dayFromYear y"
  "400 * dayFromYear y \<le> 146097 * (y - 1970) + 600"
  unfolding dayFromYear_def
  using div_bounds [of 4 "y - 1969"] div_bounds [of 100 "y - 1901"]
    div_bounds [of 400 "y - 1601"]
  by simp_all

lemma yearFromDay_bounds:
  "dayFromYear (yearFromDay d) \<le> d" "d < dayFromYear (yearFromDay d + 1)"
proof -
  define y where "y = 1970 + (400 * d) div 146097"
  have e: "146097 * (y - 1970) \<le> 400 * d" "400 * d < 146097 * (y - 1970) + 146097"
    using div_bounds [of 146097 "400 * d"] by (simp_all add: y_def)
  have lo: "dayFromYear (y - 1) \<le> d"
    using dayFromYear_estimate(2) [of "y - 1"] e(1) by (simp add: algebra_simps)
  have hi: "d < dayFromYear (y + 2)"
    using dayFromYear_estimate(1) [of "y + 2"] e(2) by (simp add: algebra_simps)
  have yd: "yearFromDay d =
      (if dayFromYear (y + 1) \<le> d then y + 1 else if d < dayFromYear y then y - 1 else y)"
    by (simp add: yearFromDay_def y_def Let_def)
  show "dayFromYear (yearFromDay d) \<le> d"
    unfolding yd using lo by simp
  show "d < dayFromYear (yearFromDay d + 1)"
    unfolding yd using hi by (simp add: add.assoc)
qed

lemma dayFromYear_mono: "y \<le> y' \<Longrightarrow> dayFromYear y \<le> dayFromYear y'"
proof (induction y' rule: int_ge_induct)
  case base
  show ?case by simp
next
  case (step i)
  have "0 \<le> daysInYear i" by (simp add: daysInYear_def)
  with step.IH show ?case by (simp add: dayFromYear_Suc)
qed

text \<open>\<open>yearFromDay d\<close> is the largest year that starts on or before day \<open>d\<close>.\<close>

lemma yearFromDay_largest: "dayFromYear y \<le> d \<Longrightarrow> y \<le> yearFromDay d"
proof (rule ccontr)
  assume a: "dayFromYear y \<le> d" and "\<not> y \<le> yearFromDay d"
  then have "yearFromDay d + 1 \<le> y" by simp
  then have "dayFromYear (yearFromDay d + 1) \<le> dayFromYear y" by (rule dayFromYear_mono)
  with a yearFromDay_bounds(2) [of d] show False by simp
qed

lemma dayWithinYear_range:
  "0 \<le> dayWithinYear d" "dayWithinYear d < 365 + inLeapYear d"
  "inLeapYear d = 0 \<or> inLeapYear d = 1"
proof -
  show "0 \<le> dayWithinYear d"
    using yearFromDay_bounds(1) [of d] by (simp add: dayWithinYear_def)
  show "dayWithinYear d < 365 + inLeapYear d"
    using yearFromDay_bounds(2) [of d] dayFromYear_Suc [of "yearFromDay d"]
    by (simp add: dayWithinYear_def inLeapYear_def)
  show "inLeapYear d = 0 \<or> inLeapYear d = 1"
    by (simp add: inLeapYear_def daysInYear_def)
qed

lemma monthFromDay_range: "monthFromDay d < 12"
  by (simp add: monthFromDay_def Let_def)

lemma dateFromDay_flat:
  "dateFromDay d = (let w = dayWithinYear d; l = inLeapYear d in
     if w < 31 then w + 1 else if w < 59 + l then w - 30 else if w < 90 + l then w - 58 - l
     else if w < 120 + l then w - 89 - l else if w < 151 + l then w - 119 - l
     else if w < 181 + l then w - 150 - l else if w < 212 + l then w - 180 - l
     else if w < 243 + l then w - 211 - l else if w < 273 + l then w - 242 - l
     else if w < 304 + l then w - 272 - l else if w < 334 + l then w - 303 - l
     else w - 333 - l)"
  by (simp add: dateFromDay_def monthFromDay_def Let_def)

lemma dateFromDay_range: "1 \<le> dateFromDay d" "dateFromDay d \<le> 31"
proof -
  define w where "w = dayWithinYear d"
  define l where "l = inLeapYear d"
  have r: "0 \<le> w" "w < 365 + l" "l = 0 \<or> l = 1"
    using dayWithinYear_range [of d] by (simp_all add: w_def l_def)
  have dd: "dateFromDay d =
     (if w < 31 then w + 1 else if w < 59 + l then w - 30 else if w < 90 + l then w - 58 - l
     else if w < 120 + l then w - 89 - l else if w < 151 + l then w - 119 - l
     else if w < 181 + l then w - 150 - l else if w < 212 + l then w - 180 - l
     else if w < 243 + l then w - 211 - l else if w < 273 + l then w - 242 - l
     else if w < 304 + l then w - 272 - l else if w < 334 + l then w - 303 - l
     else w - 333 - l)"
    by (simp add: dateFromDay_flat Let_def w_def l_def)
  show "1 \<le> dateFromDay d"
    unfolding dd using r by (elim disjE; simp split: if_splits)
  show "dateFromDay d \<le> 31"
    unfolding dd using r by (elim disjE; simp split: if_splits)
qed

section \<open>formatDate\<close>

lemma digitChar_in: "k < 10 \<Longrightarrow> digitChar k \<in> set (lit ''0123456789'')"
  unfolding digitChar_def by (rule nth_mem) (simp add: lit_def)

lemma digits_set: "set (digits n) \<subseteq> set (lit ''0123456789'')"
proof (induction n rule: digits.induct)
  case (1 n)
  show ?case
  proof (cases "n < 10")
    case True
    then show ?thesis using digitChar_in [of n] by (simp add: digits.simps [of n])
  next
    case False
    then show ?thesis
      using 1 digitChar_in [of "n mod 10"] by (simp add: digits.simps [of n])
  qed
qed

lemma digits_no_slash: "0x2F \<notin> set (digits n)"
proof -
  have "(0x2F :: jschar) \<notin> set (lit ''0123456789'')" by (simp add: lit_def)
  then show ?thesis using digits_set [of n] by blast
qed

lemma pad2_no_slash: "0x2F \<notin> set (pad2 n)"
proof -
  have "(0x2F :: jschar) \<noteq> digitChar 0" by (simp add: digitChar_def lit_def)
  then show ?thesis using digits_no_slash [of n] by (simp add: pad2_def)
qed

lemma replaceSlashes_id: "0x2F \<notin> set s \<Longrightarrow> replaceSlashes s = s"
  unfolding replaceSlashes_def by (induction s) auto

lemma replaceSlashes_numeric:
  "replaceSlashes (pad2 a @ lit ''/'' @ pad2 b @ lit ''/'' @ digits y) =
     pad2 a @ lit ''-'' @ pad2 b @ lit ''-'' @ digits y"
proof -
  have s: "replaceSlashes (lit ''/'') = lit ''-''"
    by (simp add: replaceSlashes_def lit_def)
  have app: "\<And>u v. replaceSlashes (u @ v) = replaceSlashes u @ replaceSlashes v"
    by (simp add: replaceSlashes_def)
  show ?thesis
    by (simp only: app s replaceSlashes_id [OF pad2_no_slash] replaceSlashes_id [OF digits_no_slash])
qed

lemma length_digits_small: "n < 10 \<Longrightarrow> length (digits n) = 1"
  by (simp add: digits.simps [of n])

lemma length_pad2: "n < 100 \<Longrightarrow> length (pad2 n) = 2"
proof (cases "n < 10")
  case True
  then show ?thesis by (simp add: pad2_def length_digits_small)
next
  case False
  assume "n < 100"
  with False have "n div 10 < 10" by simp
  with False show ?thesis
    by (simp add: pad2_def digits.simps [of n] length_digits_small)
qed

lemma digits_nonempty: "digits n \<noteq> []"
  by (simp add: digits.simps [of n])

lemma digits_no_leading_zero: "0 < n \<Longrightarrow> hd (digits n) \<noteq> digitChar 0"
proof (induction n rule: digits.induct)
  case (1 n)
  show ?case
  proof (cases "n < 10")
    case True
    have d: "distinct (lit ''0123456789'')" by (simp add: lit_def)
    have len: "length (lit ''0123456789'') = 10" by (simp add: lit_def)
    have "lit ''0123456789'' ! n \<noteq> lit ''0123456789'' ! 0"
      using True \<open>0 < n\<close> len nth_eq_iff_index_eq [OF d, of n 0] by simp
    with True show ?thesis by (simp add: digits.simps [of n] digitChar_def)
  next
    case False
    then have "0 < n div 10" by simp
    with False 1 have "hd (digits (n div 10)) \<noteq> digitChar 0" by simp
    with False show ?thesis
      by (simp add: digits.simps [of n] digits_nonempty)
  qed
qed

lemma jlt_year: "jlt (Fin (of_int y)) (Fin 2000) \<longleftrightarrow> y < 2000"
proof -
  have "(of_int y :: rat) < of_int 2000 \<longleftrightarrow> y < 2000" by (rule of_int_less_iff)
  then show ?thesis by simp
qed

text \<open>
  C5 (amended). For every timestamp whose millisecond value is a valid Date time
  (\<open>\<bar>timestamp * 1000\<bar> \<le> 8.64e15\<close>), with \<open>y\<close>, \<open>m\<close> (0 is January) and \<open>dd\<close> the year,
  month and day of the local calendar date: when \<open>y < 2000\<close>, \<open>formatDate\<close> returns the
  file token \<open>''''\<close> and the display text \<open>Unknown\<close>; otherwise the file token is the
  two-digit month, a hyphen, the two-digit day, a hyphen and the year in decimal, and the
  display text is the full month name, a space, the day without a leading zero, a comma
  and a space, and the year.
\<close>

theorem formatDate_valid_timestamp:
  assumes "\<bar>s * 1000\<bar> \<le> 8640000000000000"
  shows "let d = localDay h (truncInt (s * 1000)); y = yearFromDay d; m = monthFromDay d;
             dd = nat (dateFromDay d)
         in (y < 2000 \<longrightarrow>
               formatDate h (Num (Fin s)) = \<lparr> fileName = [], display = lit ''Unknown'' \<rparr>)
          \<and> (2000 \<le> y \<longrightarrow>
               formatDate h (Num (Fin s)) =
                 \<lparr> fileName = pad2 (m + 1) @ lit ''-'' @ pad2 dd @ lit ''-'' @ digits (nat y),
                   display = lit (monthNames ! m) @ lit '' '' @ digits dd @ lit '', ''
                             @ digits (nat y) \<rparr>
               \<and> m < 12 \<and> 1 \<le> dd \<and> dd \<le> 31
               \<and> length (pad2 (m + 1)) = 2 \<and> length (pad2 dd) = 2
               \<and> hd (digits dd) \<noteq> digitChar 0)"
proof -
  define d where "d = localDay h (truncInt (s * 1000))"
  define y where "y = yearFromDay d"
  define m where "m = monthFromDay d"
  define dd where "dd = nat (dateFromDay d)"
  have date: "newDate (Fin (s * 1000)) = Some (truncInt (s * 1000))"
    using assms by (simp add: newDate_def)
  have year: "getFullYear h (Some (truncInt (s * 1000))) = Fin (of_int y)"
    by (simp add: getFullYear_def y_def d_def)
  have m12: "m < 12" unfolding m_def by (rule monthFromDay_range)
  have ddr: "1 \<le> dd" "dd \<le> 31"
    using dateFromDay_range [of d] by (simp_all add: dd_def)
  have old: "formatDate h (Num (Fin s)) = \<lparr> fileName = [], display = lit ''Unknown'' \<rparr>"
    if "y < 2000"
    using that by (simp add: formatDate_def date year jlt_year Let_def)
  have new: "formatDate h (Num (Fin s)) =
      \<lparr> fileName = pad2 (m + 1) @ lit ''-'' @ pad2 dd @ lit ''-'' @ digits (nat y),
        display = lit (monthNames ! m) @ lit '' '' @ digits dd @ lit '', '' @ digits (nat y) \<rparr>"
    if "2000 \<le> y"
  proof -
    have n: "toLocaleDateString h NumericDate (Some (truncInt (s * 1000))) =
        pad2 (m + 1) @ lit ''/'' @ pad2 dd @ lit ''/'' @ digits (nat y)"
      by (simp add: toLocaleDateString_def Let_def d_def y_def m_def dd_def)
    have l: "toLocaleDateString h LongDate (Some (truncInt (s * 1000))) =
        lit (monthNames ! m) @ lit '' '' @ digits dd @ lit '', '' @ digits (nat y)"
      by (simp add: toLocaleDateString_def Let_def d_def y_def m_def dd_def)
    from that have "\<not> jlt (Fin (of_int y)) (Fin 2000)"
      by (simp only: jlt_year)
    then show ?thesis
      by (simp only: formatDate_def toNumber.simps jmul.simps date year Let_def if_False n l
          replaceSlashes_numeric)
  qed
  have pads: "length (pad2 (m + 1)) = 2" "length (pad2 dd) = 2"
    using m12 ddr by (simp_all add: length_pad2)
  have lead: "hd (digits dd) \<noteq> digitChar 0"
    using ddr by (simp add: digits_no_leading_zero)
  show ?thesis
    using old new m12 ddr pads lead
    by (simp only: Let_def d_def [symmetric] y_def [symmetric] m_def [symmetric]
        dd_def [symmetric]) simp
qed

lemma example_day_2024: "localDay exampleHost (truncInt 1709596800000) = 19787"
  by (simp add: localDay_def truncInt_def exampleHost_def)

lemma example_date_2024:
  "yearFromDay 19787 = 2024" "monthFromDay 19787 = 2" "dateFromDay 19787 = 5"
  by (simp_all add: yearFromDay_def monthFromDay_def dateFromDay_def dayWithinYear_def
      inLeapYear_def dayFromYear_def daysInYear_def Let_def)

theorem formatDate_valid_timestamp_witness:
  "\<bar>(1709596800::rat) * 1000\<bar> \<le> 8640000000000000
   \<and> formatDate exampleHost (Num (Fin 1709596800)) =
       \<lparr> fileName = lit ''03-05-2024'', display = lit ''March 5, 2024'' \<rparr>"
proof -
  have v: "\<bar>(1709596800::rat) * 1000\<bar> \<le> 8640000000000000" by simp
  have p: "pad2 3 = lit ''03''" "pad2 5 = lit ''05''" "digits 5 = lit ''5''"
    "digits 2024 = lit ''2024''" "lit (monthNames ! 2) = lit ''March''"
    by (simp_all add: pad2_def digits.simps digitChar_def lit_def monthNames_def)
  show ?thesis
    using formatDate_valid_timestamp [OF v, of exampleHost]
    by (simp add: example_day_2024 example_date_2024 Let_def p) (simp add: lit_def)
qed

text \<open>
  C5 (as stated) fails: the timestamp \<open>10^13\<close> seconds is \<open>10^16\<close> milliseconds, beyond the
  range of Date. The date is invalid, its year is NaN, \<^verbatim>\<open>NaN < 2000\<close> is false, and both
  strings are \<^verbatim>\<open>Invalid Date\<close>: neither the pair for an unknown date nor a formatted date.
\<close>

theorem formatDate_invalid_counterexample:
  "formatDate exampleHost (Num (Fin 10000000000000)) =
     \<lparr> fileName = lit ''Invalid Date'', display = lit ''Invalid Date'' \<rparr>"
  by (simp add: formatDate_def newDate_def getFullYear_def toLocaleDateString_def
      replaceSlashes_def lit_def)

section \<open>The archive is written before the directory is made\<close>

lemma caught_files: "files (snd (caught e w)) = files w" "dirs (snd (caught e w)) = dirs w"
  by (simp_all add: caught_def consoleAdd_def)

text \<open>
  C10. The archive is written (line 73) before \<^verbatim>\<open>mkdir\<close> runs (line 78). For every run
  started in a world without the directory \<^verbatim>\<open>recipe-pdfs\<close>: no file is written and the
  directory is not made, whatever the host does; and when login and retrieval succeed,
  the run ends in the rejection \<^verbatim>\<open>ENOENT\<close> of the archive write, printed by the top-level
  \<^verbatim>\<open>catch\<close>, with nothing else on the console (no recipe was rendered).
\<close>

theorem archive_write_fails_without_directory:
  assumes "outDir \<notin> set (dirs w)"
  shows "files (snd (downloadRecipes h cfg w)) = files w
       \<and> dirs (snd (downloadRecipes h cfg w)) = dirs w
       \<and> (login h = None \<and> (\<exists>recipes. getRecipes h = Inr recipes) \<longrightarrow>
            downloadRecipes h cfg w =
              (Caught (SystemError ''ENOENT''),
               w\<lparr>console := console w @ [ConsoleErrorOnly (SystemError ''ENOENT'')]\<rparr>))"
proof -
  have wf: "\<And>b c. writeFile b c w = Inl (SystemError ''ENOENT'')"
    using assms by (simp add: writeFile_def)
  show ?thesis
    by (auto simp: downloadRecipes_def wf caught_def consoleAdd_def
        split: option.splits sum.splits)
qed

theorem archive_write_fails_without_directory_witness:
  "outDir \<notin> set (dirs \<lparr> dirs = [], files = [], console = [] \<rparr>)
   \<and> downloadRecipes (exampleHost\<lparr>getRecipes := Inr [plainRecipe ''Soup'']\<rparr>) sourceConfig
        \<lparr> dirs = [], files = [], console = [] \<rparr>
     = (Caught (SystemError ''ENOENT''),
        \<lparr> dirs = [], files = [], console = [ConsoleErrorOnly (SystemError ''ENOENT'')] \<rparr>)"
proof -
  have a: "outDir \<notin> set (dirs \<lparr> dirs = [], files = [], console = [] \<rparr>)" by simp
  show ?thesis
    using archive_write_fails_without_directory [OF a,
        of "exampleHost\<lparr>getRecipes := Inr [plainRecipe ''Soup'']\<rparr>" sourceConfig]
    by (simp add: exampleHost_def)
qed

section \<open>The photo\<close>

text \<open>
  Rounding to a double changes a number of the normal range by at most the fraction
  \<open>2^(-53)\<close> of it.
\<close>

lemma log2floor_bounds:
  "0 < n \<Longrightarrow> 0 \<le> log2floor n \<and> 2 ^ nat (log2floor n) \<le> n \<and> n < 2 * 2 ^ nat (log2floor n)"
proof (induction n rule: log2floor.induct)
  case (1 n)
  show ?case
  proof (cases "n < 2")
    case True
    with 1 have "n = 1" by simp
    then show ?thesis by (simp add: log2floor.simps)
  next
    case False
    then have pos: "0 < n div 2" by simp
    define k where "k = log2floor (n div 2)"
    from 1(1) [OF False pos]
    have ih: "0 \<le> k" "2 ^ nat k \<le> n div 2" "n div 2 < 2 * 2 ^ nat k"
      by (simp_all add: k_def)
    have l: "log2floor n = 1 + k"
      using False by (simp add: log2floor.simps [of n] k_def)
    have n: "nat (1 + k) = Suc (nat k)" using ih(1) by simp
    have d: "2 * (n div 2) \<le> n" "n < 2 * (n div 2) + 2" by simp_all
    have "2 * 2 ^ nat k \<le> n" using ih(2) d(1) by simp
    moreover have "n < 2 * (2 * 2 ^ nat k)" using ih(3) d(2) by simp
    ultimately show ?thesis using ih(1) by (simp add: l n)
  qed
qed

lemma exponentOf_bounds:
  assumes "1 \<le> a"
  shows "0 \<le> exponentOf a" and "2 ^ nat (exponentOf a) \<le> a" and "a < 2 * 2 ^ nat (exponentOf a)"
proof -
  have fl: "0 < \<lfloor>a\<rfloor>" using assms by simp
  have e: "exponentOf a = log2floor \<lfloor>a\<rfloor>" using assms by (simp add: exponentOf_def)
  note b = log2floor_bounds [OF fl, folded e]
  show "0 \<le> exponentOf a" using b by simp
  have "(of_int (2 ^ nat (exponentOf a)) :: rat) \<le> of_int \<lfloor>a\<rfloor>"
    using b by (simp only: of_int_le_iff)
  also have "\<dots> \<le> a" by simp
  finally show "2 ^ nat (exponentOf a) \<le> a" by simp
  have "\<lfloor>a\<rfloor> + 1 \<le> 2 * 2 ^ nat (exponentOf a)" using b by simp
  then have "(of_int (\<lfloor>a\<rfloor> + 1) :: rat) \<le> of_int (2 * 2 ^ nat (exponentOf a))"
    by (simp only: of_int_le_iff)
  moreover have "a < of_int (\<lfloor>a\<rfloor> + 1)" using floor_correct [of a] by simp
  ultimately show "a < 2 * 2 ^ nat (exponentOf a)" by simp
qed

lemma roundHalfEven_bounds:
  "q - 1 / 2 \<le> of_int (roundHalfEven q)" "of_int (roundHalfEven q) \<le> q + 1 / 2"
proof -
  define n where "n = \<lfloor>q\<rfloor>"
  define t :: rat where "t = of_int n"
  have b: "t \<le> q" "q < t + 1"
    unfolding t_def n_def using floor_correct [of q] by simp_all
  have r: "of_int (roundHalfEven q) =
      (if q - t < 1 / 2 then t else if 1 / 2 < q - t then t + 1 else if even n then t else t + 1)"
    by (simp add: roundHalfEven_def Let_def n_def [symmetric] t_def)
  show "q - 1 / 2 \<le> of_int (roundHalfEven q)" "of_int (roundHalfEven q) \<le> q + 1 / 2"
    unfolding r using b by auto
qed

lemma pow2_sub: "pow2 (int k - 52) = 2 ^ k / 2 ^ 52"
proof (cases "52 \<le> k")
  case True
  then have "nat (int k - 52) = k - 52" by simp
  then show ?thesis using True by (simp add: pow2_def power_diff)
next
  case False
  then have n: "nat (52 - int k) = 52 - k" and k: "k + (52 - k) = 52" by simp_all
  have h: "(2::rat) ^ 52 = 2 ^ k * 2 ^ (52 - k)"
    by (simp only: power_add [symmetric] k)
  have "(2::rat) ^ k / 2 ^ 52 = 2 ^ k / (2 ^ k * 2 ^ (52 - k))"
    by (simp only: h)
  also have "\<dots> = 1 / 2 ^ (52 - k)" by simp
  finally show ?thesis using False by (simp add: pow2_def n)
qed

lemma roundDouble_bounds:
  assumes "1 \<le> r" and "r < 2 ^ 1023"
  shows "\<exists>q. roundDouble r = Fin q \<and> r * (1 - 1 / 2 ^ 53) \<le> q \<and> q \<le> r * (1 + 1 / 2 ^ 53)"
proof -
  define k where "k = nat (exponentOf r)"
  note eb = exponentOf_bounds [OF assms(1), folded k_def]
  have e: "exponentOf r = int k" using eb(1) by (simp add: k_def)
  have "(2::rat) ^ k < 2 ^ 1023" using eb(2) assms(2) by simp
  then have small: "k < 1023" by (simp only: power_strict_increasing_iff)
  define ulp :: rat where "ulp = 2 ^ k / 2 ^ 52"
  define n where "n = roundHalfEven (r / ulp)"
  have up: "0 < ulp" by (simp add: ulp_def)
  have rd: "roundDouble r = Fin (of_int n * ulp)"
    using assms(1) small
    by (simp add: roundDouble_def Let_def e pow2_sub ulp_def n_def)
  have nb: "r / ulp - 1 / 2 \<le> of_int n" "of_int n \<le> r / ulp + 1 / 2"
    unfolding n_def by (rule roundHalfEven_bounds)+
  have "(r / ulp - 1 / 2) * ulp \<le> of_int n * ulp" "of_int n * ulp \<le> (r / ulp + 1 / 2) * ulp"
    using nb up by (simp_all only: mult_le_cancel_right_pos)
  then have m: "r - ulp / 2 \<le> of_int n * ulp" "of_int n * ulp \<le> r + ulp / 2"
    using up by (simp_all add: algebra_simps)
  have "ulp / 2 = 2 ^ k / 2 ^ 53" by (simp add: ulp_def)
  also have "\<dots> \<le> r / 2 ^ 53" using eb(2) by (simp add: divide_le_cancel)
  finally have h: "ulp / 2 \<le> r / 2 ^ 53" .
  have "r * (1 - 1 / 2 ^ 53) \<le> of_int n * ulp" "of_int n * ulp \<le> r * (1 + 1 / 2 ^ 53)"
    using m h by (simp_all add: algebra_simps)
  with rd show ?thesis by blast
qed

text \<open>The ratio of a side below 200, and the side scaled by a ratio above 1.\<close>

lemma ddiv_small_side:
  fixes n :: nat
  assumes "0 < n" and "n < 200"
  shows "\<exists>q. ddiv (Fin 200) (Fin (of_nat n)) = Fin q \<and> 201 / 200 \<le> q \<and> q \<le> 201"
proof -
  define a :: rat where "a = 200 / of_nat n"
  have n: "(1::rat) \<le> of_nat n" "(of_nat n :: rat) \<le> 199"
    using assms by simp_all
  have lo: "200 / 199 \<le> a"
    unfolding a_def using n by (simp add: field_simps)
  have hi: "a \<le> 200"
    unfolding a_def using n by (simp add: field_simps)
  have d: "ddiv (Fin 200) (Fin (of_nat n)) = roundDouble a"
    using assms by (simp add: ddiv_def a_def)
  have "1 \<le> a" using lo by simp
  moreover have "a < 2 ^ 1023"
  proof -
    have "a < 2 ^ 8" using hi by simp
    also have "(2::rat) ^ 8 < 2 ^ 1023" by (simp only: power_strict_increasing_iff)
    finally show ?thesis .
  qed
  ultimately obtain q
    where q: "roundDouble a = Fin q" "a * (1 - 1 / 2 ^ 53) \<le> q" "q \<le> a * (1 + 1 / 2 ^ 53)"
    using roundDouble_bounds by blast
  have "201 / 200 \<le> 200 / 199 * (1 - 1 / 2 ^ 53 :: rat)" by simp
  also have "\<dots> \<le> a * (1 - 1 / 2 ^ 53)" using lo by (simp only: mult_le_cancel_right) simp
  finally have "201 / 200 \<le> q" using q(2) by simp
  moreover have "a * (1 + 1 / 2 ^ 53) \<le> 200 * (1 + 1 / 2 ^ 53)"
    using hi by (simp only: mult_le_cancel_right) simp
  then have "q \<le> 201" using q(3) by simp
  ultimately show ?thesis using d q(1) by simp
qed

lemma dmul_grows:
  fixes n :: nat
  assumes "0 < n" and "n < 200" and "201 / 200 \<le> q" and "q \<le> 201"
  shows "\<exists>w. dmul (Fin (of_nat n)) (Fin q) = Fin w \<and> of_nat n < w"
proof -
  define c :: rat where "c = of_nat n"
  have c: "1 \<le> c" "c \<le> 199" using assms by (simp_all add: c_def)
  have "1 * 1 \<le> c * q" using c assms(3) by (intro mult_mono) simp_all
  then have one: "1 \<le> c * q" by simp
  have "c * q \<le> 199 * 201" using c assms(3,4) by (intro mult_mono) simp_all
  then have "c * q < 2 ^ 16" by simp
  also have "(2::rat) ^ 16 < 2 ^ 1023" by (simp only: power_strict_increasing_iff)
  finally have big: "c * q < 2 ^ 1023" .
  from roundDouble_bounds [OF one big] obtain w
    where w: "roundDouble (c * q) = Fin w" "c * q * (1 - 1 / 2 ^ 53) \<le> w"
    by blast
  have cpos: "0 < c" using c by simp
  have k: "(1::rat) < 201 / 200 * (1 - 1 / 2 ^ 53)" by simp
  have "c * (201 / 200) \<le> c * q" using c assms(3) by (intro mult_left_mono) simp_all
  then have s: "c * (201 / 200) * (1 - 1 / 2 ^ 53) \<le> c * q * (1 - 1 / 2 ^ 53)"
    by (simp only: mult_le_cancel_right) simp
  have "c * 1 < c * (201 / 200 * (1 - 1 / 2 ^ 53))"
    using k by (simp only: mult_less_cancel_left_pos [OF cpos])
  also have "\<dots> = c * (201 / 200) * (1 - 1 / 2 ^ 53)"
    by (simp only: mult.assoc)
  also note s
  also note w(2)
  finally have "c < w" by simp
  then show ?thesis using w(1) by (simp add: dmul_def c_def)
qed

lemma jmin_Fin: "jmin (Fin a) (Fin b) = Fin (min a b)"
  by (simp add: jmin_def min_def)

text \<open>
  C6. For every photo that was downloaded and decoded, with intrinsic dimensions
  \<open>(iw, ih)\<close>: the only \<^verbatim>\<open>image\<close> call of the photo section has the width \<open>iw * ratio\<close>
  and the height \<open>ih * ratio\<close> with \<open>ratio = Math.min(200 / iw, 200 / ih)\<close>, each
  operation being the engine's operation on doubles, at \<open>x = 540 - width\<close>; when the
  library accepts the call the image is placed with that size and the cursor is put
  back, and when it throws nothing is placed and the failure is logged. Nothing else
  bounds the ratio: for an image smaller than 200 by 200 the ratio is a finite number
  above 1, and the placed width and height are finite and larger than the intrinsic ones.
\<close>

theorem photo_scaled_by_min_ratio:
  assumes "nonEmpty h (photoIds r)"
    and "downloadImage h (lit ''https://photos.anylist.com/'' @ toStr h (getIndex0 (photoIds r))
                          @ lit ''.jpg'') = Inr buf"
    and "openImage h buf = Inr (iw, ih)"
  shows "let ratio = jmin (ddiv (Fin 200) (Fin (of_nat iw))) (ddiv (Fin 200) (Fin (of_nat ih)));
             width = dmul (Fin (of_nat iw)) ratio;
             height = dmul (Fin (of_nat ih)) ratio;
             x = dsub (Fin 540) width
         in secPhoto h r =
              (case imageError h buf x width height of
                 None \<Rightarrow> ([ImageAtY buf x width height, ResetY], [])
               | Some e \<Rightarrow> ([], [photoFailed h r e]))
          \<and> (0 < iw \<and> iw < 200 \<and> 0 < ih \<and> ih < 200 \<longrightarrow>
               isFinite ratio \<and> jlt (Fin 1) ratio
             \<and> isFinite width \<and> jlt (Fin (of_nat iw)) width
             \<and> isFinite height \<and> jlt (Fin (of_nat ih)) height)"
proof -
  define ratio where
    "ratio = jmin (ddiv (Fin 200) (Fin (of_nat iw))) (ddiv (Fin 200) (Fin (of_nat ih)))"
  define width where "width = dmul (Fin (of_nat iw)) ratio"
  define height where "height = dmul (Fin (of_nat ih)) ratio"
  define x where "x = dsub (Fin 540) width"
  have inner: "dsub pageWidth marginRight = Fin 540"
    unfolding pageWidth_def marginRight_def by code_simp
  have sec: "secPhoto h r =
      (case imageError h buf x width height of
         None \<Rightarrow> ([ImageAtY buf x width height, ResetY], [])
       | Some e \<Rightarrow> ([], [photoFailed h r e]))"
    using assms
    by (simp add: secPhoto_def Let_def inner ratio_def width_def height_def x_def
        split: option.split)
  have up: "isFinite ratio \<and> jlt (Fin 1) ratio
      \<and> isFinite width \<and> jlt (Fin (of_nat iw)) width
      \<and> isFinite height \<and> jlt (Fin (of_nat ih)) height"
    if "0 < iw" "iw < 200" "0 < ih" "ih < 200"
  proof -
    from ddiv_small_side [OF that(1,2)] obtain qa
      where qa: "ddiv (Fin 200) (Fin (of_nat iw)) = Fin qa" "201 / 200 \<le> qa" "qa \<le> 201"
      by blast
    from ddiv_small_side [OF that(3,4)] obtain qb
      where qb: "ddiv (Fin 200) (Fin (of_nat ih)) = Fin qb" "201 / 200 \<le> qb" "qb \<le> 201"
      by blast
    define q where "q = min qa qb"
    have r: "ratio = Fin q" by (simp add: ratio_def qa(1) qb(1) jmin_Fin q_def)
    have q: "201 / 200 \<le> q" "q \<le> 201" using qa(2,3) qb(2,3) by (simp_all add: q_def)
    from dmul_grows [OF that(1,2) q] obtain w
      where w: "dmul (Fin (of_nat iw)) (Fin q) = Fin w" "of_nat iw < w" by blast
    from dmul_grows [OF that(3,4) q] obtain v
      where v: "dmul (Fin (of_nat ih)) (Fin q) = Fin v" "of_nat ih < v" by blast
    have "1 < q" using q(1) by simp
    then show ?thesis
      using w v by (simp add: r width_def height_def isFinite_def)
  qed
  show ?thesis
    using sec up
    by (simp only: Let_def ratio_def [symmetric] width_def [symmetric] height_def [symmetric]
        x_def [symmetric]) simp
qed

theorem photo_scaled_by_min_ratio_witness:
  "secPhoto photoHost photoRecipe =
     ([ImageAtY [0xFF, 0xD8] (Fin 340) (Fin 200) (Fin 100), ResetY], [])"
proof -
  have a: "nonEmpty photoHost (photoIds photoRecipe)"
    by (simp add: nonEmpty_def photoRecipe_def plainRecipe_def)
  have b: "downloadImage photoHost (lit ''https://photos.anylist.com/''
      @ toStr photoHost (getIndex0 (photoIds photoRecipe)) @ lit ''.jpg'') = Inr [0xFF, 0xD8]"
    by (simp add: downloadImage_def photoHost_def exampleHost_def)
  have c: "openImage photoHost [0xFF, 0xD8] = Inr (100, 50)"
    by (simp add: photoHost_def exampleHost_def)
  have v: "ddiv (Fin 200) (Fin 100) = Fin 2" "ddiv (Fin 200) (Fin 50) = Fin 4"
    "dmul (Fin 100) (Fin 2) = Fin 200" "dmul (Fin 50) (Fin 2) = Fin 100"
    "dsub (Fin 540) (Fin 200) = Fin 340"
    by code_simp+
  have e: "imageError photoHost = unsupportedNumber"
    by (simp add: photoHost_def exampleHost_def)
  show ?thesis
    using photo_scaled_by_min_ratio [OF a b c]
    by (simp add: Let_def v jmin_Fin e unsupportedNumber_def isFinite_def)
qed

text \<open>
  An image of 11 by 11: the ratio is the double nearest to \<open>200 / 11\<close>, and the placed
  width and height are \<^verbatim>\<open>200.00000000000003\<close>, that is \<open>200 + 2^(-45)\<close>.
\<close>

lemma small_photo_is_upscaled:
  "secPhoto smallPhotoHost photoRecipe =
     ([ImageAtY [0xFF, 0xD8] (Fin 340) (Fin (7036874417766401 / 35184372088832))
         (Fin (7036874417766401 / 35184372088832)), ResetY], [])"
  by code_simp

section \<open>The preparation steps\<close>

lemma andThen_emit: "andThen (emit xs) (emit ys) = emit (xs @ ys)"
  by (simp add: emit_def)

lemma eachStep_numbering:
  "eachStep k (map Str steps) =
     emit (concat (map (\<lambda>i. stepLines (k + length (filter (\<lambda>s. \<not> isHeadingStep s) (take i steps)))
                               (steps ! i))
                       [0..<length steps]))"
proof (induction steps arbitrary: k)
  case Nil
  show ?case by simp
next
  case (Cons s rest)
  have idx: "[0..<length (s # rest)] = 0 # map Suc [0..<length rest]"
    by (simp add: upt_conv_Cons map_Suc_upt del: upt_Suc)
  show ?case
  proof (cases "isHeadingStep s")
    case True
    then have "eachStep k (map Str (s # rest)) =
        andThen (emit (stepLines k s)) (eachStep k (map Str rest))"
      by (simp add: stepLines_def isHeadingStep_def Let_def)
    also have "\<dots> = emit (stepLines k s @ concat (map (\<lambda>i. stepLines
        (k + length (filter (\<lambda>s. \<not> isHeadingStep s) (take i rest))) (rest ! i)) [0..<length rest]))"
      by (simp only: Cons.IH andThen_emit)
    finally show ?thesis
      using True by (simp only: idx) (simp add: comp_def)
  next
    case False
    then have "eachStep k (map Str (s # rest)) =
        andThen (emit (stepLines k s)) (eachStep (k + 1) (map Str rest))"
      by (simp add: stepLines_def isHeadingStep_def Let_def)
    also have "\<dots> = emit (stepLines k s @ concat (map (\<lambda>i. stepLines
        (k + 1 + length (filter (\<lambda>s. \<not> isHeadingStep s) (take i rest))) (rest ! i)) [0..<length rest]))"
      by (simp only: Cons.IH andThen_emit)
    finally show ?thesis
      using False by (simp only: idx) (simp add: comp_def)
  qed
qed

lemma nonEmpty_Arr: "nonEmpty h (Arr xs) \<longleftrightarrow> xs \<noteq> []"
  by (simp add: nonEmpty_def)

text \<open>
  C7. For every non-empty list of preparation steps (strings), the section is its
  heading followed, entry by entry, by what the specification says: the entry trimmed; a
  \<^verbatim>\<open>#\<close> entry as an un-numbered bold line without the \<^verbatim>\<open>#\<close>; any other entry as the bold
  prefix \<^verbatim>\<open>n.\<close> and the text in the regular font, \<open>n\<close> starting at 1 and counting only the
  entries that are not \<^verbatim>\<open>#\<close> entries.
\<close>

theorem preparation_steps_numbered:
  assumes "steps \<noteq> []"
  shows "secPrepSteps h (r\<lparr>preparationSteps := Arr (map Str steps)\<rparr>) =
           emit ([MoveDown 1, FontSize 16, Font ''Helvetica-Bold'',
                  Text (Str (lit ''Preparation Steps:'')) [], MoveDown (1 / 2)]
                 @ specPrepSteps steps)"
proof -
  have "eachStep 1 (map Str steps) = emit (specPrepSteps steps)"
    unfolding specPrepSteps_def stepNumberAt_def by (rule eachStep_numbering)
  then show ?thesis
    using assms by (simp add: secPrepSteps_def nonEmpty_Arr andThen_emit)
qed

theorem preparation_steps_numbered_witness:
  "[lit ''# Heading'', lit ''Do X'', lit ''Do Y''] \<noteq> []
   \<and> secPrepSteps exampleHost ((plainRecipe ''Soup'')
        \<lparr>preparationSteps := Arr [Str (lit ''# Heading''), Str (lit ''Do X''), Str (lit ''Do Y'')]\<rparr>)
     = emit [MoveDown 1, FontSize 16, Font ''Helvetica-Bold'',
             Text (Str (lit ''Preparation Steps:'')) [], MoveDown (1 / 2),
             FontSize 12, Font ''Helvetica-Bold'', Text (Str (lit ''Heading'')) [],
             MoveDown (1 / 2),
             FontSize 12, Font ''Helvetica-Bold'',
             Text (Str (lit ''1.'')) [(''continued'', Bool True)],
             Font ''Helvetica'', Text (Str (lit '' Do X'')) [], MoveDown (1 / 2),
             FontSize 12, Font ''Helvetica-Bold'',
             Text (Str (lit ''2.'')) [(''continued'', Bool True)],
             Font ''Helvetica'', Text (Str (lit '' Do Y'')) [], MoveDown (1 / 2)]"
proof -
  let ?steps = "[lit ''# Heading'', lit ''Do X'', lit ''Do Y'']"
  have ne: "?steps \<noteq> []" by simp
  have t: "trim (lit ''# Heading'') = lit ''# Heading''" "trim (lit ''Do X'') = lit ''Do X''"
    "trim (lit ''Do Y'') = lit ''Do Y''" "trim (drop 1 (lit ''# Heading'')) = lit ''Heading''"
    by (simp_all add: trim_def lit_def isWhiteSpace_def)
  have hd: "isHeadingStep (lit ''# Heading'')" "\<not> isHeadingStep (lit ''Do X'')"
    "\<not> isHeadingStep (lit ''Do Y'')"
    unfolding isHeadingStep_def t by (simp_all add: startsWithHash_def lit_def)
  have d: "digits 1 = lit ''1''" "digits 2 = lit ''2''"
    by (simp_all add: digits.simps digitChar_def lit_def)
  have idx: "[0..<3] = [0, 1, 2]" by (simp add: upt_conv_Cons)
  have spec: "specPrepSteps ?steps =
      [FontSize 12, Font ''Helvetica-Bold'', Text (Str (lit ''Heading'')) [], MoveDown (1 / 2),
       FontSize 12, Font ''Helvetica-Bold'', Text (Str (lit ''1.'')) [(''continued'', Bool True)],
       Font ''Helvetica'', Text (Str (lit '' Do X'')) [], MoveDown (1 / 2),
       FontSize 12, Font ''Helvetica-Bold'', Text (Str (lit ''2.'')) [(''continued'', Bool True)],
       Font ''Helvetica'', Text (Str (lit '' Do Y'')) [], MoveDown (1 / 2)]"
    by (simp add: specPrepSteps_def stepNumberAt_def stepLines_def idx hd t d)
      (simp add: lit_def trim_def isWhiteSpace_def digits.simps digitChar_def)
  show ?thesis
    using preparation_steps_numbered [OF ne, of exampleHost "plainRecipe ''Soup''"]
    by (simp add: spec)
qed

section \<open>Sections are gated on truthiness\<close>

lemma emit_eq_iff: "emit xs = emit ys \<longleftrightarrow> xs = ys"
  by (simp add: emit_def)

lemma andThen_emit_Cons_ne: "andThen (emit (x # xs)) e \<noteq> emit []"
  by (cases e; cases "snd e") (auto simp: emit_def)

lemma secInstructions_empty_iff: "secInstructions r = emit [] \<longleftrightarrow> \<not> truthy (instructions r)"
  by (simp add: secInstructions_def andThen_emit_Cons_ne)

lemma secNutrition_empty_iff: "secNutrition r = emit [] \<longleftrightarrow> \<not> truthy (nutritionalInfo r)"
  by (simp add: secNutrition_def andThen_emit_Cons_ne)

text \<open>
  C9. The conditions of the sections are ToBoolean of the field, not its presence:
  a rating of 0 gives the line \<^verbatim>\<open>No rating available\<close>; servings of 0 or \<^verbatim>\<open>""\<close> give no
  Servings section; a \<^verbatim>\<open>prepTime\<close> (\<^verbatim>\<open>cookTime\<close>) of 0 leaves the time line to the other
  field alone, and no time line when that is falsy too; an empty \<^verbatim>\<open>notes\<close> gives no early
  Notes section and leaves the late one to \<^verbatim>\<open>note\<close> alone; empty \<^verbatim>\<open>instructions\<close> or
  \<^verbatim>\<open>nutritionalInfo\<close> give no section. In general each of these sections is absent
  exactly when its field is falsy.
\<close>

theorem sections_gated_on_truthiness:
  "secRating h (r\<lparr>rating := Num (Fin 0)\<rparr>) =
     [FontSize 12, Font ''Helvetica-Bold'',
      Text (Str (lit ''Rating:'')) [(''continued'', Bool True)], Font ''Helvetica'',
      Text (Str (lit '' No rating available'')) [], MoveDown 1]
   \<and> secServings h (r\<lparr>servings := Num (Fin 0)\<rparr>) = []
   \<and> secServings h (r\<lparr>servings := Str []\<rparr>) = []
   \<and> secTimes h (r\<lparr>prepTime := Num (Fin 0)\<rparr>) =
       (if truthy (cookTime r)
        then [FontSize 12, Text (Str (lit ''Cook Time: '' @ minutes h (cookTime r) @ lit '' min'')) [],
              MoveDown 1]
        else [])
   \<and> secTimes h (r\<lparr>cookTime := Num (Fin 0)\<rparr>) =
       (if truthy (prepTime r)
        then [FontSize 12, Text (Str (lit ''Prep Time: '' @ minutes h (prepTime r) @ lit '' min'')) [],
              MoveDown 1]
        else [])
   \<and> secNotesEarly (r\<lparr>notes' := Str []\<rparr>) = []
   \<and> secNotesLate (r\<lparr>notes' := Str []\<rparr>) =
       (if truthy (note' r)
        then [MoveDown 1, FontSize 16, Font ''Helvetica-Bold'', Text (Str (lit ''Notes:'')) [],
              MoveDown (1 / 2), FontSize 12, Font ''Helvetica'', Text (note' r) [], MoveDown 1]
        else [])
   \<and> secInstructions (r\<lparr>instructions := Str []\<rparr>) = emit []
   \<and> secNutrition (r\<lparr>nutritionalInfo := Str []\<rparr>) = emit []
   \<and> (secServings h r = []) = (\<not> truthy (servings r))
   \<and> (secTimes h r = []) = (\<not> truthy (prepTime r) \<and> \<not> truthy (cookTime r))
   \<and> (secNotesEarly r = []) = (\<not> truthy (notes' r))
   \<and> (secNotesLate r = []) = (\<not> truthy (note' r) \<and> \<not> truthy (notes' r))
   \<and> (secInstructions r = emit []) = (\<not> truthy (instructions r))
   \<and> (secNutrition r = emit []) = (\<not> truthy (nutritionalInfo r))
   \<and> (Text (Str (lit '' No rating available'')) [] \<in> set (secRating h r)) = (\<not> truthy (rating r))"
proof -
  have rating0: "secRating h (r\<lparr>rating := Num (Fin 0)\<rparr>) =
     [FontSize 12, Font ''Helvetica-Bold'',
      Text (Str (lit ''Rating:'')) [(''continued'', Bool True)], Font ''Helvetica'',
      Text (Str (lit '' No rating available'')) [], MoveDown 1]"
    by (simp add: secRating_def)
  have servings0: "secServings h (r\<lparr>servings := Num (Fin 0)\<rparr>) = []"
    "secServings h (r\<lparr>servings := Str []\<rparr>) = []"
    by (simp_all add: secServings_def)
  have prep0: "secTimes h (r\<lparr>prepTime := Num (Fin 0)\<rparr>) =
       (if truthy (cookTime r)
        then [FontSize 12, Text (Str (lit ''Cook Time: '' @ minutes h (cookTime r) @ lit '' min'')) [],
              MoveDown 1]
        else [])"
    by (simp add: secTimes_def)
  have cook0: "secTimes h (r\<lparr>cookTime := Num (Fin 0)\<rparr>) =
       (if truthy (prepTime r)
        then [FontSize 12, Text (Str (lit ''Prep Time: '' @ minutes h (prepTime r) @ lit '' min'')) [],
              MoveDown 1]
        else [])"
    by (simp add: secTimes_def)
  have notes0: "secNotesEarly (r\<lparr>notes' := Str []\<rparr>) = []"
    by (simp add: secNotesEarly_def)
  have late0: "secNotesLate (r\<lparr>notes' := Str []\<rparr>) =
       (if truthy (note' r)
        then [MoveDown 1, FontSize 16, Font ''Helvetica-Bold'', Text (Str (lit ''Notes:'')) [],
              MoveDown (1 / 2), FontSize 12, Font ''Helvetica'', Text (note' r) [], MoveDown 1]
        else [])"
    by (simp add: secNotesLate_def)
  have instr0: "secInstructions (r\<lparr>instructions := Str []\<rparr>) = emit []"
    by (simp add: secInstructions_def)
  have nutr0: "secNutrition (r\<lparr>nutritionalInfo := Str []\<rparr>) = emit []"
    by (simp add: secNutrition_def)
  have gen: "(secServings h r = []) = (\<not> truthy (servings r))"
    "(secTimes h r = []) = (\<not> truthy (prepTime r) \<and> \<not> truthy (cookTime r))"
    "(secNotesEarly r = []) = (\<not> truthy (notes' r))"
    "(secNotesLate r = []) = (\<not> truthy (note' r) \<and> \<not> truthy (notes' r))"
    by (simp_all add: secServings_def secTimes_def secNotesEarly_def secNotesLate_def Let_def)
  have "last (lit '' No rating available'') \<noteq> last (lit '' '' @ x @ lit '' stars'')" for x
    by (simp add: lit_def)
  then have ne: "lit '' No rating available'' \<noteq> lit '' '' @ x @ lit '' stars''" for x
    by metis
  have norating: "(Text (Str (lit '' No rating available'')) [] \<in> set (secRating h r))
      = (\<not> truthy (rating r))"
    by (simp add: secRating_def ne)
  show ?thesis
    by (simp only: rating0 servings0 prep0 cook0 notes0 late0 instr0 nutr0 gen norating
        secInstructions_empty_iff secNutrition_empty_iff simp_thms)
qed

section \<open>The section policy\<close>

lemma headingsFrom_append:
  "selfSized ys \<Longrightarrow> headingsFrom sz (xs @ ys) = headingsFrom sz xs @ headingsFrom 0 ys"
proof (induction xs arbitrary: sz)
  case Nil
  then show ?case by (simp add: selfSized_def)
next
  case (Cons x xs)
  then show ?case by (cases x) simp_all
qed

lemma selfSized_append: "selfSized xs \<Longrightarrow> selfSized ys \<Longrightarrow> selfSized (xs @ ys)"
  by (simp add: selfSized_def headingsFrom_append)

lemma selfSized_concat: "list_all selfSized secs \<Longrightarrow> selfSized (concat secs)"
  by (induction secs) (simp_all add: selfSized_append, simp add: selfSized_def)

lemma headingsFrom_concat:
  "list_all selfSized secs \<Longrightarrow>
     headingsFrom sz (concat secs) = concat (map (headingsFrom 0) secs)"
proof (induction secs arbitrary: sz)
  case Nil
  show ?case by simp
next
  case (Cons s secs)
  then have a: "selfSized s" and b: "list_all selfSized secs" by simp_all
  have "headingsFrom sz (s @ concat secs) = headingsFrom sz s @ headingsFrom 0 (concat secs)"
    using selfSized_concat [OF b] by (rule headingsFrom_append)
  also have "headingsFrom sz s = headingsFrom 0 s"
    using a by (simp add: selfSized_def)
  finally show ?case using Cons.IH [OF b] by simp
qed

lemma selfSized_FontSize: "selfSized (FontSize n # ops)"
  by (simp add: selfSized_def)

lemma selfSized_MoveDown_FontSize: "selfSized (MoveDown a # FontSize n # ops)"
  by (simp add: selfSized_def)

lemma selfSized_Nil: "selfSized []"
  by (simp add: selfSized_def)

lemma selfSized_quiet: "selfSized [ImageAtY b x w ht, ResetY]" "selfSized [EndDoc]"
  by (simp_all add: selfSized_def)

lemma andThen_snd: "snd (andThen a b) = None \<longleftrightarrow> snd a = None \<and> snd b = None"
  by (cases a; cases b; cases "snd a") auto

lemma andThen_fst: "snd a = None \<Longrightarrow> fst (andThen a b) = fst a @ fst b"
  by (cases a; cases b) auto

lemma andThen_fst_any: "\<exists>zs. fst (andThen a b) = fst a @ zs \<and> (zs = [] \<or> zs = fst b)"
  by (cases a; cases b; cases "snd a") auto

lemma emit_parts: "fst (emit xs) = xs" "snd (emit xs) = None"
  "fst (raise e) = []" "snd (raise e) = Some e"
  by (simp_all add: emit_def raise_def)

text \<open>The loops write at size 12 only.\<close>

lemma quiet_headings: "quiet ops \<Longrightarrow> headingsFrom sz ops = []"
  by (simp add: quiet_def)

lemma quiet_selfSized: "quiet ops \<Longrightarrow> selfSized ops"
  by (simp add: quiet_def selfSized_def)

lemma quiet_append: "quiet xs \<Longrightarrow> quiet ys \<Longrightarrow> quiet (xs @ ys)"
  using headingsFrom_append [OF quiet_selfSized] by (simp add: quiet_def)

lemma quiet_concat: "list_all quiet xss \<Longrightarrow> quiet (concat xss)"
  by (induction xss) (simp_all add: quiet_append, simp add: quiet_def)

lemma quiet_andThen: "quiet (fst a) \<Longrightarrow> quiet (fst b) \<Longrightarrow> quiet (fst (andThen a b))"
  using andThen_fst_any [of a b] by (auto simp: quiet_append)

lemma quiet_basic:
  "quiet []" "quiet [FontSize 12]" "quiet [FontSize 12, Text t opts]"
  "quiet [FontSize 12, Text t opts, MoveDown a]"
  "quiet [FontSize 12, Font f, Text t opts, MoveDown a]"
  "quiet [FontSize 12, Font f, Text t opts, Font g, Text u opts', MoveDown a]"
  "quiet [MoveDown a]"
  by (simp_all add: quiet_def)

lemma eachIngredient_quiet: "quiet (fst (eachIngredient h xs))"
proof (induction xs)
  case Nil
  show ?case by (simp add: emit_parts quiet_basic)
next
  case (Cons i rest)
  have "quiet (fst (andThen (emit [FontSize 12])
      (case getProp i ''rawIngredient'' of Inl e \<Rightarrow> raise e
       | Inr v \<Rightarrow> emit [Text (Str (toStr h v)) []])))"
    by (cases "getProp i ''rawIngredient''") (simp_all add: emit_def raise_def quiet_basic)
  then show ?case using Cons.IH by (simp add: quiet_andThen)
qed

lemma eachStep_quiet: "quiet (fst (eachStep k xs))"
proof (induction xs arbitrary: k)
  case Nil
  show ?case by (simp add: emit_parts quiet_basic)
next
  case (Cons x rest)
  show ?case
  proof (cases x)
    case (Str s)
    then show ?thesis
      using Cons.IH by (simp add: Let_def quiet_andThen emit_parts quiet_basic)
  qed (simp_all add: emit_parts quiet_basic)
qed

lemma instructionSteps_quiet: "quiet (concat (map instructionStep ps))"
  by (rule quiet_concat) (simp add: list_all_iff instructionStep_def quiet_basic split: prod.split)

lemma nutritionLines_quiet:
  "quiet (concat (map (\<lambda>line. [FontSize 12, Text (Str line) []]) ls) @ [MoveDown 1])"
  by (rule quiet_append [OF quiet_concat]) (simp_all add: list_all_iff quiet_basic)

text \<open>The headings of each section, whatever the size before it.\<close>

lemma plain_sections:
  "selfSized (secTitle r)" "headingsFrom 0 (secTitle r) = []"
  "selfSized (secCreated h r d)" "headingsFrom 0 (secCreated h r d) = []"
  "selfSized (secSource r)" "headingsFrom 0 (secSource r) = []"
  "selfSized (secServings h r)" "headingsFrom 0 (secServings h r) = []"
  "selfSized (secRating h r)" "headingsFrom 0 (secRating h r) = []"
  "selfSized (secTimes h r)" "headingsFrom 0 (secTimes h r) = []"
  by (simp_all add: selfSized_def secTitle_def secCreated_def secSource_def secServings_def
      secRating_def secTimes_def Let_def)

lemma photo_section:
  "selfSized (fst (secPhoto h r))" "headingsFrom 0 (fst (secPhoto h r)) = []"
  by (simp_all add: selfSized_def secPhoto_def Let_def split: sum.split prod.split option.split)

lemma categories_section:
  "selfSized (fst (secCategories h r))" "headingsFrom 0 (fst (secCategories h r)) = []"
  by (simp_all add: selfSized_def secCategories_def emit_def raise_def split: jsval.split)

lemma notes_sections:
  "selfSized (secNotesEarly r)"
  "headingsFrom 0 (secNotesEarly r) = (if truthy (notes' r) then [Str (lit ''Notes:'')] else [])"
  "selfSized (secNotesLate r)"
  "headingsFrom 0 (secNotesLate r) =
     (if truthy (note' r) \<or> truthy (notes' r) then [Str (lit ''Notes:'')] else [])"
  by (simp_all add: selfSized_def secNotesEarly_def secNotesLate_def)

lemma ingredients_section:
  "selfSized (fst (secIngredients h r))"
  "headingsFrom 0 (fst (secIngredients h r)) = [Str (lit ''Ingredients:'')]"
proof -
  obtain l where l: "fst (secIngredients h r) =
      [MoveDown (1 / 2), FontSize 16, Font ''Helvetica-Bold'',
       Text (Str (lit ''Ingredients:'')) [], MoveDown (1 / 2), Font ''Helvetica''] @ l"
    and q: "quiet l"
  proof (cases "ingredients r")
    case (Arr xs)
    show ?thesis
      by (rule that [of "fst (eachIngredient h xs)"])
        (simp_all add: secIngredients_def Arr andThen_fst emit_parts eachIngredient_quiet)
  qed (rule that [of "[]"]; simp add: secIngredients_def andThen_fst emit_parts quiet_basic)+
  show "selfSized (fst (secIngredients h r))"
    unfolding l by (simp add: selfSized_MoveDown_FontSize)
  show "headingsFrom 0 (fst (secIngredients h r)) = [Str (lit ''Ingredients:'')]"
    unfolding l using q by (simp add: quiet_headings)
qed

lemma instructions_section:
  "selfSized (fst (secInstructions r))"
  "headingsFrom 0 (fst (secInstructions r)) =
     (if truthy (instructions r) then [Str (lit ''Instructions:'')] else [])"
proof -
  obtain l where l: "fst (secInstructions r) =
      (if truthy (instructions r) then
        [MoveDown 1, FontSize 16, Font ''Helvetica-Bold'',
         Text (Str (lit ''Instructions:'')) [], MoveDown (1 / 2), Font ''Helvetica''] @ l
       else [])"
    and q: "quiet l"
  proof (cases "instructions r")
    case (Str s)
    show ?thesis
      by (rule that [of "concat (map instructionStep (enumerate 0
            (filter (\<lambda>step. truthy (Str (trim step))) (splitOn 0x0A s))))"])
        (simp_all add: secInstructions_def Str andThen_fst emit_parts instructionSteps_quiet)
  qed (rule that [of "[]"]; simp add: secInstructions_def andThen_fst emit_parts quiet_basic)+
  show "selfSized (fst (secInstructions r))"
    unfolding l by (simp add: selfSized_MoveDown_FontSize selfSized_Nil)
  show "headingsFrom 0 (fst (secInstructions r)) =
     (if truthy (instructions r) then [Str (lit ''Instructions:'')] else [])"
    unfolding l using q by (simp add: quiet_headings)
qed

lemma prepSteps_section:
  "selfSized (fst (secPrepSteps h r))"
  "headingsFrom 0 (fst (secPrepSteps h r)) =
     (if nonEmpty h (preparationSteps r) then [Str (lit ''Preparation Steps:'')] else [])"
proof -
  obtain l where l: "fst (secPrepSteps h r) =
      (if nonEmpty h (preparationSteps r) then
        [MoveDown 1, FontSize 16, Font ''Helvetica-Bold'',
         Text (Str (lit ''Preparation Steps:'')) [], MoveDown (1 / 2)] @ l
       else [])"
    and q: "quiet l"
  proof (cases "preparationSteps r")
    case (Arr xs)
    show ?thesis
      by (rule that [of "fst (eachStep 1 xs)"])
        (simp_all add: secPrepSteps_def Arr andThen_fst emit_parts eachStep_quiet)
  qed (rule that [of "[]"]; simp add: secPrepSteps_def andThen_fst emit_parts quiet_basic)+
  show "selfSized (fst (secPrepSteps h r))"
    unfolding l by (simp add: selfSized_MoveDown_FontSize selfSized_Nil)
  show "headingsFrom 0 (fst (secPrepSteps h r)) =
     (if nonEmpty h (preparationSteps r) then [Str (lit ''Preparation Steps:'')] else [])"
    unfolding l using q by (simp add: quiet_headings)
qed

lemma nutrition_section:
  "selfSized (fst (secNutrition r))"
  "headingsFrom 0 (fst (secNutrition r)) =
     (if truthy (nutritionalInfo r) then [Str (lit ''Nutritional Information:'')] else [])"
proof -
  obtain l where l: "fst (secNutrition r) =
      (if truthy (nutritionalInfo r) then
        [MoveDown 1, FontSize 16, Font ''Helvetica-Bold'',
         Text (Str (lit ''Nutritional Information:'')) [], MoveDown (1 / 2),
         Font ''Helvetica''] @ l
       else [])"
    and q: "quiet l"
  proof (cases "nutritionalInfo r")
    case (Str s)
    show ?thesis
      by (rule that [of "concat (map (\<lambda>line. [FontSize 12, Text (Str line) []])
            (splitOn 0x0A s)) @ [MoveDown 1]"])
        (simp_all add: secNutrition_def Str andThen_fst emit_parts nutritionLines_quiet)
  qed (rule that [of "[]"]; simp add: secNutrition_def andThen_fst emit_parts quiet_basic)+
  show "selfSized (fst (secNutrition r))"
    unfolding l by (simp add: selfSized_MoveDown_FontSize selfSized_Nil)
  show "headingsFrom 0 (fst (secNutrition r)) =
     (if truthy (nutritionalInfo r) then [Str (lit ''Nutritional Information:'')] else [])"
    unfolding l using q by (simp add: quiet_headings)
qed

text \<open>A rendering that threw nothing made the calls of all fifteen sections, in order.\<close>

lemma renderBody_complete:
  assumes "thrown (renderBody h r d) = None"
  shows "docCalls (renderBody h r d) =
      concat [secTitle r, fst (secPhoto h r), secCreated h r d, secSource r, secServings h r,
              secRating h r, secTimes h r, fst (secCategories h r), secNotesEarly r,
              fst (secIngredients h r), fst (secInstructions r), fst (secPrepSteps h r),
              secNotesLate r, fst (secNutrition r), [EndDoc]]"
proof -
  define chain where "chain =
      andThen (emit (secTitle r @ fst (secPhoto h r) @ secCreated h r d @ secSource r
                     @ secServings h r @ secRating h r @ secTimes h r))
     (andThen (secCategories h r)
     (andThen (emit (secNotesEarly r))
     (andThen (secIngredients h r)
     (andThen (secInstructions r)
     (andThen (secPrepSteps h r)
     (andThen (emit (secNotesLate r))
     (andThen (secNutrition r)
              (emit [EndDoc]))))))))"
  have rb: "docCalls (renderBody h r d) = fst chain" "thrown (renderBody h r d) = snd chain"
    by (simp_all add: renderBody_def chain_def split: prod.split)
  from assms have none: "snd chain = None" by (simp add: rb)
  then have parts: "snd (secCategories h r) = None" "snd (secIngredients h r) = None"
    "snd (secInstructions r) = None" "snd (secPrepSteps h r) = None"
    "snd (secNutrition r) = None"
    by (simp_all add: chain_def andThen_snd)
  have "fst chain =
      (secTitle r @ fst (secPhoto h r) @ secCreated h r d @ secSource r
         @ secServings h r @ secRating h r @ secTimes h r)
      @ fst (secCategories h r) @ secNotesEarly r @ fst (secIngredients h r)
      @ fst (secInstructions r) @ fst (secPrepSteps h r) @ secNotesLate r
      @ fst (secNutrition r) @ [EndDoc]"
    unfolding chain_def by (simp add: andThen_fst andThen_snd emit_parts parts)
  then show ?thesis by (simp add: rb)
qed

lemma section_policy:
  assumes "thrown (renderBody h r d) = None"
  shows "headings (docCalls (renderBody h r d)) =
      (if truthy (notes' r) then [Str (lit ''Notes:'')] else [])
      @ [Str (lit ''Ingredients:'')]
      @ (if truthy (instructions r) then [Str (lit ''Instructions:'')] else [])
      @ (if nonEmpty h (preparationSteps r) then [Str (lit ''Preparation Steps:'')] else [])
      @ (if truthy (note' r) \<or> truthy (notes' r) then [Str (lit ''Notes:'')] else [])
      @ (if truthy (nutritionalInfo r) then [Str (lit ''Nutritional Information:'')] else [])"
proof -
  let ?secs = "[secTitle r, fst (secPhoto h r), secCreated h r d, secSource r, secServings h r,
              secRating h r, secTimes h r, fst (secCategories h r), secNotesEarly r,
              fst (secIngredients h r), fst (secInstructions r), fst (secPrepSteps h r),
              secNotesLate r, fst (secNutrition r), [EndDoc]]"
  have all: "list_all selfSized ?secs"
    by (simp add: plain_sections photo_section categories_section notes_sections
        ingredients_section instructions_section prepSteps_section nutrition_section
        selfSized_quiet)
  have "headings (docCalls (renderBody h r d)) = headingsFrom 12 (concat ?secs)"
    using renderBody_complete [OF assms] by (simp only: headings_def)
  also have "\<dots> = concat (map (headingsFrom 0) ?secs)"
    using all by (rule headingsFrom_concat)
  also have "\<dots> =
      (if truthy (notes' r) then [Str (lit ''Notes:'')] else [])
      @ [Str (lit ''Ingredients:'')]
      @ (if truthy (instructions r) then [Str (lit ''Instructions:'')] else [])
      @ (if nonEmpty h (preparationSteps r) then [Str (lit ''Preparation Steps:'')] else [])
      @ (if truthy (note' r) \<or> truthy (notes' r) then [Str (lit ''Notes:'')] else [])
      @ (if truthy (nutritionalInfo r) then [Str (lit ''Nutritional Information:'')] else [])"
    by (simp add: plain_sections photo_section categories_section notes_sections
        ingredients_section instructions_section prepSteps_section nutrition_section)
  finally show ?thesis .
qed

text \<open>
  C2. For every recipe whose \<^verbatim>\<open>note\<close> and \<^verbatim>\<open>notes\<close> are both set (truthy) and whose
  rendering completes: the document has exactly two headings \<^verbatim>\<open>Notes:\<close>; the calls of the
  document are those of the sections up to the categories, then the early Notes section
  with the value of \<^verbatim>\<open>notes\<close> as its body, then the ingredients, instructions and
  preparation steps, then the late Notes section with the value of \<^verbatim>\<open>note\<close> as its body,
  then the nutritional information and \<^verbatim>\<open>end()\<close>.
\<close>

theorem two_notes_sections:
  assumes "truthy (note' r)" and "truthy (notes' r)"
    and "thrown (renderBody h r d) = None"
  shows "count_list (headings (docCalls (renderBody h r d))) (Str (lit ''Notes:'')) = 2
       \<and> docCalls (renderBody h r d) =
           (secTitle r @ fst (secPhoto h r) @ secCreated h r d @ secSource r @ secServings h r
              @ secRating h r @ secTimes h r @ fst (secCategories h r))
           @ [FontSize 14, Text (Str (lit ''Notes:'')) [], FontSize 12, Text (notes' r) [],
              MoveDown 1]
           @ (fst (secIngredients h r) @ fst (secInstructions r) @ fst (secPrepSteps h r))
           @ [MoveDown 1, FontSize 16, Font ''Helvetica-Bold'', Text (Str (lit ''Notes:'')) [],
              MoveDown (1 / 2), FontSize 12, Font ''Helvetica'', Text (note' r) [], MoveDown 1]
           @ (fst (secNutrition r) @ [EndDoc])"
proof -
  have ne: "Str (lit ''Ingredients:'') \<noteq> Str (lit ''Notes:'')"
    "Str (lit ''Instructions:'') \<noteq> Str (lit ''Notes:'')"
    "Str (lit ''Preparation Steps:'') \<noteq> Str (lit ''Notes:'')"
    "Str (lit ''Nutritional Information:'') \<noteq> Str (lit ''Notes:'')"
    by (simp_all add: lit_def)
  have early: "secNotesEarly r =
      [FontSize 14, Text (Str (lit ''Notes:'')) [], FontSize 12, Text (notes' r) [], MoveDown 1]"
    using assms(2) by (simp add: secNotesEarly_def)
  have late: "secNotesLate r =
      [MoveDown 1, FontSize 16, Font ''Helvetica-Bold'', Text (Str (lit ''Notes:'')) [],
       MoveDown (1 / 2), FontSize 12, Font ''Helvetica'', Text (note' r) [], MoveDown 1]"
    using assms(1) by (simp add: secNotesLate_def)
  have "count_list (headings (docCalls (renderBody h r d))) (Str (lit ''Notes:'')) = 2"
    using assms(1,2) ne by (simp add: section_policy [OF assms(3)])
  moreover have "docCalls (renderBody h r d) =
           (secTitle r @ fst (secPhoto h r) @ secCreated h r d @ secSource r @ secServings h r
              @ secRating h r @ secTimes h r @ fst (secCategories h r))
           @ secNotesEarly r
           @ (fst (secIngredients h r) @ fst (secInstructions r) @ fst (secPrepSteps h r))
           @ secNotesLate r
           @ (fst (secNutrition r) @ [EndDoc])"
    by (simp add: renderBody_complete [OF assms(3)])
  ultimately show ?thesis by (simp only: early late)
qed

theorem two_notes_sections_witness:
  "truthy (note' ((plainRecipe ''Soup'')\<lparr>note' := Str (lit ''A''), notes' := Str (lit ''B'')\<rparr>))
   \<and> truthy (notes' ((plainRecipe ''Soup'')\<lparr>note' := Str (lit ''A''), notes' := Str (lit ''B'')\<rparr>))
   \<and> thrown (renderBody exampleHost
        ((plainRecipe ''Soup'')\<lparr>note' := Str (lit ''A''), notes' := Str (lit ''B'')\<rparr>)
        \<lparr> fileName = lit ''03-05-2024'', display = lit ''March 5, 2024'' \<rparr>) = None
   \<and> headings (docCalls (renderBody exampleHost
        ((plainRecipe ''Soup'')\<lparr>note' := Str (lit ''A''), notes' := Str (lit ''B'')\<rparr>)
        \<lparr> fileName = lit ''03-05-2024'', display = lit ''March 5, 2024'' \<rparr>))
     = [Str (lit ''Notes:''), Str (lit ''Ingredients:''), Str (lit ''Notes:'')]
   \<and> count_list (headings (docCalls (renderBody exampleHost
        ((plainRecipe ''Soup'')\<lparr>note' := Str (lit ''A''), notes' := Str (lit ''B'')\<rparr>)
        \<lparr> fileName = lit ''03-05-2024'', display = lit ''March 5, 2024'' \<rparr>)))
       (Str (lit ''Notes:'')) = 2"
proof -
  let ?r = "(plainRecipe ''Soup'')\<lparr>note' := Str (lit ''A''), notes' := Str (lit ''B'')\<rparr>"
  let ?d = "\<lparr> fileName = lit ''03-05-2024'', display = lit ''March 5, 2024'' \<rparr>"
  have a: "truthy (note' ?r)" by (simp add: plainRecipe_def lit_def)
  have b: "truthy (notes' ?r)" by (simp add: plainRecipe_def lit_def)
  have c: "thrown (renderBody exampleHost ?r ?d) = None"
    by (simp add: renderBody_def plainRecipe_def secPhoto_def secCategories_def
        secIngredients_def secInstructions_def secPrepSteps_def secNutrition_def nonEmpty_def
        emit_def raise_def lookupKey_def split: prod.split)
  have hs: "headings (docCalls (renderBody exampleHost ?r ?d)) =
      [Str (lit ''Notes:''), Str (lit ''Ingredients:''), Str (lit ''Notes:'')]"
    using section_policy [OF c] by (simp add: plainRecipe_def nonEmpty_def lit_def)
  from two_notes_sections [OF a b c] a b c hs show ?thesis by simp
qed

section \<open>The loop and the summary\<close>

lemma renderRecipe_effect:
  assumes "renderRecipe h r w = (s, w1)"
  shows "dirs w1 = dirs w"
    and "s = Resolved \<Longrightarrow> \<exists>p calls. files w1 = files w @ [(p, PdfFile calls)]"
    and "s = Rejected e \<Longrightarrow> files w1 = files w"
    and "s = Rejected e \<Longrightarrow> outDir \<in> set (dirs w) \<Longrightarrow> \<exists>p. streamError h p = Some e"
    and "\<exists>ls. console w1 = console w @ ls"
  using assms
  by (auto simp: renderRecipe_def Let_def consoleAdd_def putFile_def streamFailure_def
      split: sum.splits option.splits if_splits)

lemma forEachRecipe_files:
  assumes "forEachRecipe h rs w = (None, w')"
  shows "dirs w' = dirs w
       \<and> (\<exists>docs. files w' = files w @ map (\<lambda>(p, calls). (p, PdfFile calls)) docs
            \<and> length docs \<le> length rs
            \<and> (outDir \<in> set (dirs w) \<and> (\<forall>p. streamError h p = None)
                \<longrightarrow> length docs = length rs))"
  using assms
proof (induction rs arbitrary: w)
  case Nil
  then show ?case by simp
next
  case (Cons r rest)
  obtain s w1 where rr: "renderRecipe h r w = (s, w1)" by (cases "renderRecipe h r w")
  note eff = renderRecipe_effect [OF rr]
  show ?case
  proof (cases s)
    case Resolved
    with Cons.prems rr have loop: "forEachRecipe h rest w1 = (None, w')" by simp
    from eff(2) [OF Resolved] obtain p calls
      where f1: "files w1 = files w @ [(p, PdfFile calls)]" by blast
    from Cons.IH [OF loop] obtain docs
      where d: "dirs w' = dirs w1"
        "files w' = files w1 @ map (\<lambda>(p, calls). (p, PdfFile calls)) docs"
        "length docs \<le> length rest"
        "outDir \<in> set (dirs w1) \<and> (\<forall>p. streamError h p = None) \<longrightarrow> length docs = length rest"
      by blast
    have "files w' = files w @ map (\<lambda>(p, calls). (p, PdfFile calls)) ((p, calls) # docs)"
      using d(2) f1 by simp
    moreover have "length ((p, calls) # docs) \<le> length (r # rest)" using d(3) by simp
    moreover have "outDir \<in> set (dirs w) \<and> (\<forall>p. streamError h p = None)
        \<longrightarrow> length ((p, calls) # docs) = length (r # rest)"
      using d(4) eff(1) by simp
    ultimately show ?thesis using d(1) eff(1) by metis
  next
    case (Rejected e)
    with Cons.prems rr
    have loop: "forEachRecipe h rest (consoleAdd [createFailed h r e] w1) = (None, w')" by simp
    have same: "files (consoleAdd [createFailed h r e] w1) = files w"
      "dirs (consoleAdd [createFailed h r e] w1) = dirs w"
      using eff(1) eff(3) [OF Rejected] by (simp_all add: consoleAdd_def)
    from Cons.IH [OF loop] obtain docs
      where d: "dirs w' = dirs w"
        "files w' = files w @ map (\<lambda>(p, calls). (p, PdfFile calls)) docs"
        "length docs \<le> length rest"
      unfolding same by blast
    have "\<not> (outDir \<in> set (dirs w) \<and> (\<forall>p. streamError h p = None))"
      using eff(4) [OF Rejected] by auto
    then show ?thesis using d by auto
  next
    case (Pending e)
    with Cons.prems rr show ?thesis by simp
  qed
qed

lemma finish_exit:
  assumes "finish h recipes w = (Exited n, w')"
  shows "files w' = files w"
    and "console w' = console w @ [ConsoleLog (lit ''Finished processing ''
           @ digits (length recipes) @ lit '' recipes'')]"
  using assms
  by (auto simp: finish_def Let_def caught_def consoleAdd_def split: option.splits)

text \<open>
  C4. For every run that ends with \<^verbatim>\<open>process.exit(0)\<close>: the last line on the console is
  \<^verbatim>\<open>Finished processing N recipes\<close> with \<open>N\<close> the length of the full retrieved sequence;
  the files written are the archive, holding all retrieved recipes, followed by documents
  only, at most one per selected recipe and, when rendering is enabled and no write stream
  fails, exactly one per selected recipe. With 3 recipes and the limit 2 that is the
  archive of 3 records, 2 documents and the summary \<^verbatim>\<open>3\<close>.
\<close>

theorem summary_counts_all_recipes:
  assumes "downloadRecipes h cfg w = (Exited n, w')" and "getRecipes h = Inr recipes"
  shows "last (console w') =
           ConsoleLog (lit ''Finished processing '' @ digits (length recipes) @ lit '' recipes'')
       \<and> (\<exists>docs. files w' =
              files w @ (outDir @ lit ''/'' @ lit ''all-recipes.json'', JsonArchive recipes)
                        # map (\<lambda>(p, calls). (p, PdfFile calls)) docs
            \<and> length docs \<le> length (recipesToProcess cfg recipes)
            \<and> (generatePDF cfg \<and> (\<forall>p. streamError h p = None)
                \<longrightarrow> length docs = length (recipesToProcess cfg recipes)))"
proof -
  from assms have lg: "login h = None"
    by (auto simp: downloadRecipes_def caught_def split: option.splits)
  from assms lg obtain w1
    where wf: "writeFile (lit ''all-recipes.json'') (JsonArchive recipes) w = Inr w1"
    by (auto simp: downloadRecipes_def caught_def split: sum.splits)
  then have dir: "outDir \<in> set (dirs w)"
    and w1: "w1 = putFile (outDir @ lit ''/'' @ lit ''all-recipes.json'') (JsonArchive recipes) w"
    by (auto simp: writeFile_def split: if_splits)
  define w2 where
    "w2 = consoleAdd [ConsoleLog (lit ''Saved all recipes to all-recipes.json'')] w1"
  have f2: "files w2 = files w @ [(outDir @ lit ''/'' @ lit ''all-recipes.json'', JsonArchive recipes)]"
    and d2: "outDir \<in> set (dirs w2)"
    using dir by (simp_all add: w2_def w1 consoleAdd_def putFile_def)
  show ?thesis
  proof (cases "generatePDF cfg")
    case False
    with assms lg wf have fin: "finish h recipes w2 = (Exited n, w')"
      by (simp add: downloadRecipes_def w2_def Let_def)
    have "files w' = files w @ (outDir @ lit ''/'' @ lit ''all-recipes.json'', JsonArchive recipes)
        # map (\<lambda>(p, calls). (p, PdfFile calls)) []"
      using finish_exit(1) [OF fin] f2 by simp
    then show ?thesis
      using finish_exit(2) [OF fin] False by (metis last_snoc list.size(3) le0)
  next
    case True
    obtain res w3
      where loop: "forEachRecipe h (recipesToProcess cfg recipes) (mkdirRecursive w2) = (res, w3)"
      by (cases "forEachRecipe h (recipesToProcess cfg recipes) (mkdirRecursive w2)")
    have mk: "mkdirRecursive w2 = w2" using d2 by (simp add: mkdirRecursive_def)
    from assms lg wf True loop have res: "res = None" and fin: "finish h recipes w3 = (Exited n, w')"
      by (auto simp: downloadRecipes_def w2_def Let_def split: option.splits)
    from forEachRecipe_files [OF loop [unfolded res mk]] d2 obtain docs
      where d: "files w3 = files w2 @ map (\<lambda>(p, calls). (p, PdfFile calls)) docs"
        "length docs \<le> length (recipesToProcess cfg recipes)"
        "(\<forall>p. streamError h p = None) \<longrightarrow> length docs = length (recipesToProcess cfg recipes)"
      by blast
    have "files w' = files w @ (outDir @ lit ''/'' @ lit ''all-recipes.json'', JsonArchive recipes)
        # map (\<lambda>(p, calls). (p, PdfFile calls)) docs"
      using finish_exit(1) [OF fin] d(1) f2 by simp
    then show ?thesis
      using finish_exit(2) [OF fin] d(2,3) by (metis last_snoc)
  qed
qed

theorem summary_counts_all_recipes_witness:
  "getRecipes threeRecipesHost = Inr [plainRecipe ''A'', plainRecipe ''B'', plainRecipe ''C'']
   \<and> fst (downloadRecipes threeRecipesHost \<lparr> generatePDF = True, maxPDFsToGenerate = 2 \<rparr>
            exampleWorld) = Exited 0
   \<and> last (console (snd (downloadRecipes threeRecipesHost
            \<lparr> generatePDF = True, maxPDFsToGenerate = 2 \<rparr> exampleWorld)))
       = ConsoleLog (lit ''Finished processing 3 recipes'')
   \<and> length (files (snd (downloadRecipes threeRecipesHost
            \<lparr> generatePDF = True, maxPDFsToGenerate = 2 \<rparr> exampleWorld))) = 3
   \<and> hd (files (snd (downloadRecipes threeRecipesHost
            \<lparr> generatePDF = True, maxPDFsToGenerate = 2 \<rparr> exampleWorld)))
       = (lit ''recipe-pdfs/all-recipes.json'',
          JsonArchive [plainRecipe ''A'', plainRecipe ''B'', plainRecipe ''C''])"
proof -
  let ?cfg = "\<lparr> generatePDF = True, maxPDFsToGenerate = 2 \<rparr>"
  let ?run = "downloadRecipes threeRecipesHost ?cfg exampleWorld"
  let ?rs = "[plainRecipe ''A'', plainRecipe ''B'', plainRecipe ''C'']"
  have g: "getRecipes threeRecipesHost = Inr ?rs"
    by (simp add: threeRecipesHost_def)
  have e: "fst ?run = Exited 0"
    by code_simp
  then have run: "?run = (Exited 0, snd ?run)"
    by (simp add: prod_eq_iff)
  have sel: "length (recipesToProcess ?cfg ?rs) = 2"
    by (simp add: recipesToProcess_def sliceFromStart_def)
  have ok: "generatePDF ?cfg \<and> (\<forall>p. streamError threeRecipesHost p = None)"
    by (simp add: threeRecipesHost_def exampleHost_def)
  have three: "lit ''Finished processing '' @ digits (length ?rs) @ lit '' recipes''
      = lit ''Finished processing 3 recipes''"
    by (simp add: digits.simps digitChar_def lit_def)
  have path: "outDir @ lit ''/'' @ lit ''all-recipes.json'' = lit ''recipe-pdfs/all-recipes.json''"
    by (simp add: outDir_def lit_def)
  from summary_counts_all_recipes [OF run g] ok sel obtain docs
    where l: "last (console (snd ?run)) = ConsoleLog (lit ''Finished processing 3 recipes'')"
      and f: "files (snd ?run) = files exampleWorld
            @ (lit ''recipe-pdfs/all-recipes.json'', JsonArchive ?rs)
              # map (\<lambda>(p, calls). (p, PdfFile calls)) docs"
      and n: "length docs = 2"
    unfolding three path by auto
  have "length (files (snd ?run)) = 3" "hd (files (snd ?run))
      = (lit ''recipe-pdfs/all-recipes.json'', JsonArchive ?rs)"
    unfolding f using n by (simp_all add: exampleWorld_def)
  with g e l show ?thesis by simp
qed

section \<open>Errors while rendering one recipe\<close>

text \<open>What the two \<^verbatim>\<open>catch\<close> blocks do catch: a failed photo, and an error of the stream.\<close>

lemma photo_failure_is_logged:
  assumes "nonEmpty h (photoIds r)"
    and "downloadImage h (lit ''https://photos.anylist.com/'' @ toStr h (getIndex0 (photoIds r))
                          @ lit ''.jpg'') = Inl e"
  shows "secPhoto h r = ([], [photoFailed h r e])"
  using assms by (simp add: secPhoto_def)

lemma empty_photo_is_not_placed:
  "secPhoto emptyPhotoHost photoRecipe =
     ([], [ConsoleError (lit ''Failed to add photo for Soup:'')
             (Error (lit ''unsupported number: NaN''))])"
  by code_simp

lemma stream_error_is_caught:
  assumes "renderRecipe h r w = (Rejected e, w1)"
  shows "forEachRecipe h (r # rest) w =
           forEachRecipe h rest (w1\<lparr>console := console w1 @ [createFailed h r e]\<rparr>)"
  using assms by (simp add: consoleAdd_def)

text \<open>What they do not catch: an error thrown in the executor.\<close>

lemma thrown_error_is_pending:
  assumes "sanitizeFilename (name r) = Inr s"
    and "thrown (renderBody h r (formatDate h (creationTimestamp r))) = Some e"
  shows "fst (renderRecipe h r w) = Pending e \<or> fst (renderRecipe h r w) = Pending nullBytePath"
  using assms by (simp add: renderRecipe_def Let_def)

lemma null_byte_path_is_pending:
  assumes "sanitizeFilename (name r) = Inr s" and "0 \<in> set s"
  shows "renderRecipe h r w = (Pending nullBytePath, w)"
  using assms by (simp add: renderRecipe_def Let_def)

lemma pending_stops_the_loop:
  assumes "fst (renderRecipe h r w) = Pending e"
  shows "forEachRecipe h (r # rest) w = (Some e, snd (renderRecipe h r w))"
  using assms by (cases "renderRecipe h r w") simp

text \<open>
  C1. The claim fails on the code for an error thrown while the recipe is rendered. The
  run below retrieves two recipes; the first has no \<^verbatim>\<open>ingredients\<close>, so
  \<^verbatim>\<open>recipe.ingredients.forEach\<close> (line 239) throws a TypeError in the executor. The
  awaited promise stays pending: the run stalls with that error, the console holds the
  archive message only (no \<^verbatim>\<open>Failed to create PDF for Bad\<close>, nothing about the second
  recipe, no summary), and the only files are the archive and the unfinished document of
  the first recipe.
\<close>

theorem malformed_recipe_stalls_the_batch:
  "fst (downloadRecipes malformedFirstHost sourceConfig exampleWorld) =
     Stalled (TypeError ''Cannot read properties of undefined (reading forEach)'')
   \<and> console (snd (downloadRecipes malformedFirstHost sourceConfig exampleWorld)) =
       [ConsoleLog (lit ''Saved all recipes to all-recipes.json'')]
   \<and> map fst (files (snd (downloadRecipes malformedFirstHost sourceConfig exampleWorld))) =
       [lit ''recipe-pdfs/all-recipes.json'', lit ''recipe-pdfs/03-05-2024 - Bad.pdf'']"
  by code_simp

section \<open>The recipes that are rendered\<close>

lemma recipesToProcess_other_negative:
  "maxPDFsToGenerate cfg < - 1 \<Longrightarrow>
     recipesToProcess cfg recipes =
       take (length recipes - nat (- maxPDFsToGenerate cfg)) recipes"
proof -
  assume a: "maxPDFsToGenerate cfg < - 1"
  then have "nat (int (length recipes) + maxPDFsToGenerate cfg) =
      length recipes - nat (- maxPDFsToGenerate cfg)"
    by linarith
  with a show ?thesis
    by (simp add: recipesToProcess_def sliceFromStart_def)
qed




end
